theory Spec2Isabelle
  imports Main "HOL-Library.Sublist" "HOL-Library.Char_ord" "HOL-Library.List_Lexorder"
begin

section \<open>Strings and paths\<close>

text \<open>
  A Go string is a sequence of bytes: \<open>string\<close> (a list of 8-bit characters).
  The functions of packages \<open>strings\<close> and \<open>path/filepath\<close> that \<open>main.go\<close> calls
  are written out below, under the names they have in Go.
\<close>

definition HasPrefix :: "string \<Rightarrow> string \<Rightarrow> bool" where
  "HasPrefix s p = (length p \<le> length s \<and> take (length p) s = p)"

text \<open>\<open>strings.IndexByte\<close>: the index of the first occurrence, or \<open>-1\<close>.\<close>

fun IndexByte :: "string \<Rightarrow> char \<Rightarrow> int" where
  "IndexByte [] c = -1"
| "IndexByte (x # xs) c =
     (if x = c then 0 else (let i = IndexByte xs c in if i < 0 then -1 else i + 1))"

text \<open>\<open>strings.Contains(s, ".")\<close> with a one-byte pattern is membership of that byte.\<close>

definition ContainsByte :: "string \<Rightarrow> char \<Rightarrow> bool" where
  "ContainsByte s c = (c \<in> set s)"

text \<open>
  \<open>strings.TrimSpace\<close> removes the runes with \<open>unicode.IsSpace\<close> from both ends:
  the six ASCII ones, and NEL, NBSP, U+1680, U+2000 to U+200A, U+2028, U+2029, U+202F,
  U+205F and U+3000, listed here in their UTF-8 encodings.
\<close>

definition spaceRunes :: "string list" where
  "spaceRunes =
     [[CHR 0x09], [CHR 0x0A], [CHR 0x0B], [CHR 0x0C], [CHR 0x0D], [CHR 0x20],
      [CHR 0xC2, CHR 0x85], [CHR 0xC2, CHR 0xA0], [CHR 0xE1, CHR 0x9A, CHR 0x80],
      [CHR 0xE2, CHR 0x80, CHR 0x80], [CHR 0xE2, CHR 0x80, CHR 0x81],
      [CHR 0xE2, CHR 0x80, CHR 0x82], [CHR 0xE2, CHR 0x80, CHR 0x83],
      [CHR 0xE2, CHR 0x80, CHR 0x84], [CHR 0xE2, CHR 0x80, CHR 0x85],
      [CHR 0xE2, CHR 0x80, CHR 0x86], [CHR 0xE2, CHR 0x80, CHR 0x87],
      [CHR 0xE2, CHR 0x80, CHR 0x88], [CHR 0xE2, CHR 0x80, CHR 0x89],
      [CHR 0xE2, CHR 0x80, CHR 0x8A], [CHR 0xE2, CHR 0x80, CHR 0xA8],
      [CHR 0xE2, CHR 0x80, CHR 0xA9], [CHR 0xE2, CHR 0x80, CHR 0xAF],
      [CHR 0xE2, CHR 0x81, CHR 0x9F], [CHR 0xE3, CHR 0x80, CHR 0x80]]"

text \<open>The width in bytes of the rune of \<open>rs\<close> that \<open>s\<close> starts with, 0 when there is none.\<close>

definition runeWidth :: "string list \<Rightarrow> string \<Rightarrow> nat" where
  "runeWidth rs s = (case find (HasPrefix s) rs of Some r \<Rightarrow> length r | None \<Rightarrow> 0)"

lemma runeWidth_drop: "0 < runeWidth rs s \<Longrightarrow> length s - runeWidth rs s < length s"
  by (cases s) (auto simp: runeWidth_def HasPrefix_def find_Some_iff split: option.splits)

function trimStart :: "string list \<Rightarrow> string \<Rightarrow> string" where
  "trimStart rs s = (if runeWidth rs s = 0 then s else trimStart rs (drop (runeWidth rs s) s))"
  by pat_completeness auto
termination
  by (relation "measure (\<lambda>(rs, s). length s)") (auto simp: runeWidth_drop)

declare trimStart.simps [simp del]

definition TrimSpace :: "string \<Rightarrow> string" where
  "TrimSpace s = rev (trimStart (map rev spaceRunes) (rev (trimStart spaceRunes s)))"

text \<open>
  \<open>filepath.Base\<close> with the separator \<open>/\<close> (the Unix build): the last element of
  the path, trailing slashes ignored; \<open>.\<close> for the empty path and \<open>/\<close> for a path of
  slashes only.
\<close>

definition filepath_Base :: "string \<Rightarrow> string" where
  "filepath_Base path =
     (if path = [] then ''.''
      else (let p = rev (dropWhile (\<lambda>c. c = CHR ''/'') (rev path));
                e = rev (takeWhile (\<lambda>c. c \<noteq> CHR ''/'') (rev p))
            in if e = [] then ''/'' else e))"

section \<open>The standard library behind the program\<close>

text \<open>
  \<open>net/url\<close>, \<open>encoding/json\<close> and \<open>filepath.Join\<close> are not part of the repository.
  The program is modelled relative to them: record \<open>lib\<close> holds what each call returns,
  \<open>None\<close> standing for a returned error. The fields of \<open>url.URL\<close> the program reads or
  writes are \<open>Path\<close> and \<open>RawQuery\<close>. \<open>json_Decode\<close> is the decoder reading a response
  body: the bytes the body delivers, and whether it then ends with a read error.
\<close>

record URL =
  Scheme :: string
  Opaque :: string
  Host :: string
  Path :: string
  RawQuery :: string
  Fragment :: string

record imageObject =
  Asset :: string

record ad =
  IconHoverText :: string
  Title :: string
  Copyright :: string
  Landscape :: "imageObject option"

record adEnvelope =
  Ad :: "ad option"

record item =
  Item :: string

record batchrsp =
  Items :: "item list"

record root =
  BatchRsp :: batchrsp

record lib =
  url_Parse :: "string \<Rightarrow> URL option"
  url_String :: "URL \<Rightarrow> string"
  values_Encode :: "(string \<times> string list) list \<Rightarrow> string"
  json_Decode :: "string \<Rightarrow> bool \<Rightarrow> root option"
  json_Unmarshal :: "string \<Rightarrow> adEnvelope option"
  filepath_Join :: "string \<Rightarrow> string \<Rightarrow> string"

section \<open>Descriptors\<close>

record spotImage =
  URL :: string
  FileName :: string
  Title :: string
  Copyright :: string

text \<open>\<open>firstNonEmpty\<close> (main.go, lines 214 to 219).\<close>

definition firstNonEmpty :: "string \<Rightarrow> string \<Rightarrow> string" where
  "firstNonEmpty a b = (if TrimSpace a \<noteq> [] then a else TrimSpace b)"

text \<open>\<open>fileNameFromURL\<close> (main.go, lines 221 to 234).\<close>

definition fileNameFromURL :: "lib \<Rightarrow> string \<Rightarrow> string" where
  "fileNameFromURL L u =
     (case url_Parse L u of
        None \<Rightarrow> []
      | Some pu \<Rightarrow>
          (let base = filepath_Base (Path pu);
               i = IndexByte base (CHR ''?'');
               base = (if i \<ge> 0 then take (nat i) base else base);
               base = (if \<not> ContainsByte base (CHR ''.'') then base @ ''.jpg'' else base)
           in base))"

text \<open>
  \<open>dedupe\<close> (main.go, lines 126 to 140). The loop carries the map \<open>seen\<close> (a set of
  keys) and the slice \<open>out\<close>.
\<close>

fun dedupe_loop :: "string set \<Rightarrow> spotImage list \<Rightarrow> spotImage list \<Rightarrow> spotImage list" where
  "dedupe_loop seen out [] = out"
| "dedupe_loop seen out (im # rest) =
     (if URL im = [] then dedupe_loop seen out rest
      else if URL im \<in> seen then dedupe_loop seen out rest
      else dedupe_loop (insert (URL im) seen) (out @ [im]) rest)"

definition dedupe :: "spotImage list \<Rightarrow> spotImage list" where
  "dedupe ins = dedupe_loop {} [] ins"

section \<open>Errors and the network\<close>

text \<open>
  One constructor for each place where the program returns or receives an error.
\<close>

datatype error =
    ErrNewRequest
  | ErrTransport
  | ErrHttpStatus int
  | ErrDecode
  | ErrCreate
  | ErrCopy
  | ErrClose
  | ErrStat
  | ErrSizeMismatch
  | ErrRename

text \<open>
  What \<open>client.Do\<close> returns is an input of the model: \<open>None\<close> for a transport error,
  or a response. \<open>Body\<close> holds the bytes the body delivers and \<open>BodyErr\<close> tells whether
  the body then ends with a read error rather than end of file. \<open>ContentLength\<close> is
  \<open>-1\<close> when the length is unknown, as in \<open>net/http\<close>.
\<close>

record response =
  StatusCode :: int
  ContentLength :: int
  Body :: string
  BodyErr :: bool

text \<open>\<open>buildAPIURL\<close> (main.go, lines 28 to 43): the URL and the error it returns.\<close>

definition buildAPIURL :: "lib \<Rightarrow> string \<Rightarrow> string \<Rightarrow> string \<times> error option" where
  "buildAPIURL L country locale =
     (case url_Parse L ''https://fd.api.iris.microsoft.com/v4/api/selection'' of
        None \<Rightarrow> ([], None)
      | Some u \<Rightarrow>
          (let q = [(''placement'', [''88000820'']), (''bcnt'', [''4'']),
                    (''country'', [country]), (''locale'', [locale]), (''fmt'', [''json''])];
               u = u\<lparr>RawQuery := values_Encode L q\<rparr>
           in (url_String L u, None)))"

text \<open>
  The loop of \<open>fetchOnce\<close> over the items of the batch (main.go, lines 102 to 122),
  with the slice \<open>out\<close> as accumulator.
\<close>

fun collect :: "lib \<Rightarrow> spotImage list \<Rightarrow> item list \<Rightarrow> spotImage list" where
  "collect L out [] = out"
| "collect L out (it # its) =
     (case json_Unmarshal L (Item it) of
        None \<Rightarrow> collect L out its
      | Some env \<Rightarrow>
          (case Ad env of
             None \<Rightarrow> collect L out its
           | Some a \<Rightarrow>
               (case Landscape a of
                  None \<Rightarrow> collect L out its
                | Some ls \<Rightarrow>
                    (let asset = TrimSpace (Asset ls) in
                     if asset = [] \<or> \<not> HasPrefix asset ''https://'' then collect L out its
                     else collect L
                       (out @ [\<lparr>URL = asset, FileName = fileNameFromURL L asset,
                                Title = firstNonEmpty (IconHoverText a) (ad.Title a),
                                Copyright = ad.Copyright a\<rparr>])
                       its))))"

text \<open>
  What one pass through the body of that loop does with an item: the descriptor it
  appends (lines 116 to 121), or nothing, when one of the three \<open>continue\<close> statements
  is reached. It is used to state properties of \<open>collect\<close>.
\<close>

definition yield :: "lib \<Rightarrow> item \<Rightarrow> spotImage option" where
  "yield L it =
     (case json_Unmarshal L (Item it) of
        None \<Rightarrow> None
      | Some env \<Rightarrow>
          (case Ad env of
             None \<Rightarrow> None
           | Some a \<Rightarrow>
               (case Landscape a of
                  None \<Rightarrow> None
                | Some ls \<Rightarrow>
                    (let asset = TrimSpace (Asset ls) in
                     if asset = [] \<or> \<not> HasPrefix asset ''https://'' then None
                     else Some \<lparr>URL = asset, FileName = fileNameFromURL L asset,
                                 Title = firstNonEmpty (IconHoverText a) (ad.Title a),
                                 Copyright = ad.Copyright a\<rparr>))))"

text \<open>
  \<open>fetchOnce\<close> (main.go, lines 77 to 124). \<open>http.NewRequestWithContext\<close> fails exactly
  when \<open>url.Parse\<close> rejects the URL (the method and the context are fixed and valid).
  The error of \<open>buildAPIURL\<close> is overwritten by the next assignment and never read.
  \<open>api\<close> answers the request sent to a URL.
\<close>

definition fetchOnce ::
  "lib \<Rightarrow> (string \<Rightarrow> response option) \<Rightarrow> string \<Rightarrow> string \<Rightarrow> error + spotImage list" where
  "fetchOnce L api country locale =
     (let reqURL = fst (buildAPIURL L country locale) in
      case url_Parse L reqURL of
        None \<Rightarrow> Inl ErrNewRequest
      | Some _ \<Rightarrow>
          (case api reqURL of
             None \<Rightarrow> Inl ErrTransport
           | Some resp \<Rightarrow>
               if StatusCode resp \<noteq> 200 then Inl (ErrHttpStatus (StatusCode resp))
               else (case json_Decode L (Body resp) (BodyErr resp) of
                       None \<Rightarrow> Inl ErrDecode
                     | Some r \<Rightarrow> Inr (dedupe (collect L [] (Items (BatchRsp r)))))))"

section \<open>The file system and the Downloader\<close>

text \<open>
  The file system maps a path to what is there: a file with its bytes, or a directory.
\<close>

datatype node = File string | Dir

type_synonym fs = "string \<Rightarrow> node option"

text \<open>
  What the network and the operating system do during one call of \<open>download\<close>:
  the answer of \<open>client.Do\<close>, whether \<open>os.Create\<close>, \<open>f.Close\<close>, \<open>os.Stat\<close> and
  \<open>os.Rename\<close> succeed, and after how many bytes a write to the file fails
  (\<open>None\<close>: never).
\<close>

record dl_env =
  do_result :: "response option"
  create_ok :: bool
  write_limit :: "nat option"
  close_ok :: bool
  stat_ok :: bool
  rename_ok :: bool

text \<open>\<open>exists\<close> (main.go, lines 236 to 239): \<open>os.Stat\<close> succeeds on files and directories.\<close>

definition exists :: "fs \<Rightarrow> string \<Rightarrow> bool" where
  "exists fs p = (fs p \<noteq> None)"

text \<open>\<open>os.Create\<close> truncates or creates a file; it fails on a directory.\<close>

definition os_Create :: "dl_env \<Rightarrow> fs \<Rightarrow> string \<Rightarrow> fs option" where
  "os_Create env fs p =
     (if create_ok env \<and> fs p \<noteq> Some Dir then Some (fs(p \<mapsto> File [])) else None)"

text \<open>
  \<open>io.Copy(f, resp.Body)\<close>: the bytes that reach the file, and whether it returns an
  error (a read error of the body, or a failed write).
\<close>

definition io_Copy :: "dl_env \<Rightarrow> response \<Rightarrow> string \<times> bool" where
  "io_Copy env resp =
     (case write_limit env of
        None \<Rightarrow> (Body resp, BodyErr resp)
      | Some k \<Rightarrow>
          if k < length (Body resp) then (take k (Body resp), True)
          else (Body resp, BodyErr resp))"

definition os_Remove :: "fs \<Rightarrow> string \<Rightarrow> fs" where
  "os_Remove fs p = fs(p := None)"

text \<open>\<open>os.Stat(p)\<close> followed by \<open>fi.Size()\<close>.\<close>

definition os_Stat_Size :: "dl_env \<Rightarrow> fs \<Rightarrow> string \<Rightarrow> int option" where
  "os_Stat_Size env fs p =
     (if stat_ok env then
        (case fs p of Some (File bs) \<Rightarrow> Some (int (length bs)) | _ \<Rightarrow> None)
      else None)"

text \<open>\<open>os.Rename\<close> moves a file over the new path atomically; it fails on a directory.\<close>

definition os_Rename :: "dl_env \<Rightarrow> fs \<Rightarrow> string \<Rightarrow> string \<Rightarrow> fs option" where
  "os_Rename env fs old new =
     (if rename_ok env \<and> fs old \<noteq> None \<and> fs new \<noteq> Some Dir
      then Some (fs(new := fs old, old := None)) else None)"

text \<open>
  \<open>download\<close> (main.go, lines 142 to 192): the error returned (\<open>None\<close> for \<open>nil\<close>) and
  the file system it leaves.
\<close>

definition download :: "lib \<Rightarrow> dl_env \<Rightarrow> fs \<Rightarrow> string \<Rightarrow> string \<Rightarrow> error option \<times> fs" where
  "download L env fs src dst =
     (case url_Parse L src of
        None \<Rightarrow> (Some ErrNewRequest, fs)
      | Some _ \<Rightarrow>
     (case do_result env of
        None \<Rightarrow> (Some ErrTransport, fs)
      | Some resp \<Rightarrow>
     if StatusCode resp \<noteq> 200 then (Some (ErrHttpStatus (StatusCode resp)), fs)
     else
       (let expected = (if ContentLength resp > 0 then Some (ContentLength resp) else None);
            tmp = dst @ ''.part''
        in case os_Create env fs tmp of
             None \<Rightarrow> (Some ErrCreate, fs)
           | Some fs1 \<Rightarrow>
               (let (written, copyErr) = io_Copy env resp;
                    fs2 = fs1(tmp \<mapsto> File written)
                in if copyErr then (Some ErrCopy, os_Remove fs2 tmp)
                   else if \<not> close_ok env then (Some ErrClose, os_Remove fs2 tmp)
                   else
                     (let verify =
                            (case expected of
                               None \<Rightarrow> None
                             | Some n \<Rightarrow>
                                 (case os_Stat_Size env fs2 tmp of
                                    None \<Rightarrow> Some ErrStat
                                  | Some sz \<Rightarrow> if sz \<noteq> n then Some ErrSizeMismatch else None))
                      in case verify of
                           Some e \<Rightarrow> (Some e, os_Remove fs2 tmp)
                         | None \<Rightarrow>
                             (case os_Rename env fs2 tmp dst of
                                None \<Rightarrow> (Some ErrRename, fs2)
                              | Some fs3 \<Rightarrow> (None, fs3)))))))"

section \<open>The Poll Loop\<close>

text \<open>
  The loop of \<open>main\<close> (main.go, lines 258 to 308). Its variables are \<open>seen\<close>,
  \<open>emptyRounds\<close> and \<open>totalNew\<close>; \<open>disk\<close> is the file system and \<open>stdout\<close> the lines
  printed. Two fields only observe the run: \<open>rounds\<close> counts the rounds completed and
  \<open>downloads\<close> lists the calls of \<open>download\<close> (source and destination). The pause of
  500 ms after an empty round takes time and changes nothing else.
\<close>

datatype event =
    SkipExisting string
  | DownloadFailed string error
  | Saved string
  | Summary nat

record state =
  seen :: "string set"
  emptyRounds :: nat
  totalNew :: nat
  disk :: fs
  stdout :: "event list"
  rounds :: nat
  downloads :: "(string \<times> string) list"

text \<open>
  The surroundings of a run: what \<open>fetchOnce\<close> returns in each round, and what happens
  during the download of a source URL in a round (a URL is downloaded at most once in
  a run, because of \<open>seen\<close>).
\<close>

record world =
  fetch :: "nat \<Rightarrow> error + spotImage list"
  net :: "nat \<Rightarrow> string \<Rightarrow> dl_env"

record config =
  outDir :: string
  verbose :: bool

definition maxEmptyRounds :: nat where
  "maxEmptyRounds = 50"

text \<open>The body of the inner loop (lines 271 to 295) for one image.\<close>

definition visit ::
  "lib \<Rightarrow> (string \<Rightarrow> dl_env) \<Rightarrow> config \<Rightarrow> spotImage \<Rightarrow> state \<times> nat \<Rightarrow> state \<times> nat" where
  "visit L nt C im = (\<lambda>(st, newInRound).
     if URL im \<in> seen st then (st, newInRound)
     else
       (let st = st\<lparr>seen := insert (URL im) (seen st)\<rparr>;
            name = fileNameFromURL L (URL im)
        in if name = [] then (st, newInRound)
           else
             (let path = filepath_Join L (outDir C) name
              in if exists (disk st) path
                 then (st\<lparr>stdout := stdout st @ (if verbose C then [SkipExisting path] else [])\<rparr>,
                       newInRound)
                 else
                   (case download L (nt (URL im)) (disk st) (URL im) path of
                      (Some e, fs') \<Rightarrow>
                        (st\<lparr>disk := fs',
                            downloads := downloads st @ [(URL im, path)],
                            stdout := stdout st @
                              (if verbose C then [DownloadFailed (URL im) e] else [])\<rparr>,
                         newInRound)
                    | (None, fs') \<Rightarrow>
                        (st\<lparr>disk := fs',
                            downloads := downloads st @ [(URL im, path)],
                            stdout := stdout st @ [Saved path],
                            totalNew := totalNew st + 1\<rparr>,
                         newInRound + 1)))))"

fun images_loop ::
  "lib \<Rightarrow> (string \<Rightarrow> dl_env) \<Rightarrow> config \<Rightarrow> spotImage list \<Rightarrow> state \<times> nat \<Rightarrow> state \<times> nat" where
  "images_loop L nt C [] acc = acc"
| "images_loop L nt C (im # ims) acc = images_loop L nt C ims (visit L nt C im acc)"

text \<open>The end of a round (lines 298 to 303).\<close>

definition end_round :: "state \<times> nat \<Rightarrow> state" where
  "end_round = (\<lambda>(st, newInRound).
     if newInRound = 0 then st\<lparr>emptyRounds := emptyRounds st + 1, rounds := rounds st + 1\<rparr>
     else st\<lparr>emptyRounds := 0, rounds := rounds st + 1\<rparr>)"

definition finish :: "config \<Rightarrow> state \<Rightarrow> state" where
  "finish C st = st\<lparr>stdout := stdout st @ (if verbose C then [Summary (totalNew st)] else [])\<rparr>"

text \<open>
  How the process ends: \<open>Exit0\<close> when \<open>main\<close> returns, \<open>Exit1\<close> after \<open>fatal\<close>.
  The loop need not end (the API may deliver new images for ever), so \<open>main_loop\<close>
  takes the number of rounds it may still run: \<open>None\<close> means it is still running
  after that many.
\<close>

datatype exit = Exit0 state | Exit1 error state

fun main_loop :: "nat \<Rightarrow> lib \<Rightarrow> world \<Rightarrow> config \<Rightarrow> state \<Rightarrow> exit option" where
  "main_loop 0 L W C st =
     (if emptyRounds st < maxEmptyRounds then None else Some (Exit0 (finish C st)))"
| "main_loop (Suc k) L W C st =
     (if emptyRounds st < maxEmptyRounds then
        (case fetch W (rounds st) of
           Inl e \<Rightarrow> Some (Exit1 e st)
         | Inr imgs \<Rightarrow>
             main_loop k L W C (end_round (images_loop L (net W (rounds st)) C imgs (st, 0))))
      else Some (Exit0 (finish C st)))"

text \<open>The state at line 258, and the run with the real Fetcher behind \<open>fetch\<close>.\<close>

definition initial :: "fs \<Rightarrow> state" where
  "initial fs = \<lparr>seen = {}, emptyRounds = 0, totalNew = 0, disk = fs, stdout = [],
                 rounds = 0, downloads = []\<rparr>"

definition api_world ::
  "lib \<Rightarrow> (nat \<Rightarrow> string \<Rightarrow> response option) \<Rightarrow> string \<Rightarrow> string \<Rightarrow>
   (nat \<Rightarrow> string \<Rightarrow> dl_env) \<Rightarrow> world" where
  "api_world L api country locale nt =
     \<lparr>fetch = (\<lambda>n. fetchOnce L (api n) country locale), net = nt\<rparr>"

section \<open>A model of the library for the examples\<close>

text \<open>
  The theorems below hold for every \<open>lib\<close>. The examples need one: \<open>model_lib\<close>
  follows \<open>net/url\<close> and \<open>path/filepath\<close> (as of Go 1.21, Unix). \<open>model_Parse\<close> goes through
  the steps of \<open>url.Parse\<close>: control bytes, fragment, scheme, query, authority (user
  information, host, port), escapes of the path and the fragment. The user information
  is checked and not kept.
\<close>

definition isLetter :: "char \<Rightarrow> bool" where
  "isLetter c = (let n = (of_char c :: nat) in (0x41 \<le> n \<and> n \<le> 0x5A) \<or> (0x61 \<le> n \<and> n \<le> 0x7A))"

definition isDigit :: "char \<Rightarrow> bool" where
  "isDigit c = (let n = (of_char c :: nat) in 0x30 \<le> n \<and> n \<le> 0x39)"

definition isCTL :: "char \<Rightarrow> bool" where
  "isCTL c = ((of_char c :: nat) < 0x20 \<or> c = CHR 0x7F)"

definition toLower :: "char \<Rightarrow> char" where
  "toLower c = (let n = (of_char c :: nat) in if 0x41 \<le> n \<and> n \<le> 0x5A then char_of (n + 32) else c)"

definition ishex :: "char \<Rightarrow> bool" where
  "ishex c = (c \<in> set ''0123456789abcdefABCDEF'')"

definition unhex :: "char \<Rightarrow> nat" where
  "unhex c = (let n = (of_char c :: nat) in
     if isDigit c then n - 0x30 else if 0x61 \<le> n then n - 0x61 + 10 else n - 0x41 + 10)"

text \<open>\<open>unescape\<close> in the modes of a path and of a fragment: a malformed escape is an error.\<close>

fun unescape :: "string \<Rightarrow> string option" where
  "unescape [] = Some []"
| "unescape [c] = (if c = CHR ''%'' then None else Some [c])"
| "unescape [c, d] = (if c = CHR ''%'' then None else map_option ((#) c) (unescape [d]))"
| "unescape (c # h1 # h2 # cs) =
     (if c = CHR ''%'' then
        (if ishex h1 \<and> ishex h2
         then map_option ((#) (char_of (16 * unhex h1 + unhex h2))) (unescape cs)
         else None)
      else map_option ((#) c) (unescape (h1 # h2 # cs)))"

text \<open>\<open>getScheme\<close>: the scheme and the rest, \<open>None\<close> for a URL that starts with a colon.\<close>

fun getScheme :: "string \<Rightarrow> string \<Rightarrow> string \<Rightarrow> (string \<times> string) option" where
  "getScheme raw acc [] = Some ([], raw)"
| "getScheme raw acc (c # cs) =
     (if isLetter c then getScheme raw (acc @ [c]) cs
      else if isDigit c \<or> c \<in> set ''+-.'' then
        (if acc = [] then Some ([], raw) else getScheme raw (acc @ [c]) cs)
      else if c = CHR '':'' then (if acc = [] then None else Some (acc, cs))
      else Some ([], raw))"

text \<open>\<open>strings.Cut\<close> at a byte: the text before the first occurrence and the text after it.\<close>

definition Cut :: "string \<Rightarrow> char \<Rightarrow> string \<times> string" where
  "Cut s c = (takeWhile (\<lambda>x. x \<noteq> c) s, drop 1 (dropWhile (\<lambda>x. x \<noteq> c) s))"

definition setFragment :: "URL \<Rightarrow> string \<Rightarrow> URL option" where
  "setFragment u frag =
     (if frag = [] then Some u
      else map_option (\<lambda>f. u\<lparr>Fragment := f\<rparr>) (unescape frag))"

text \<open>
  The authority. \<open>shouldEscapeHost\<close> is \<open>shouldEscape\<close> in the mode of a host;
  \<open>unescapeHost\<close> is \<open>unescape\<close> in the mode of a host, or of an IPv6 zone when its first
  argument is true: an ASCII byte that would need escaping is an error, and so is an
  escape the mode does not allow.
\<close>

definition shouldEscapeHost :: "char \<Rightarrow> bool" where
  "shouldEscapeHost c =
     (\<not> (isLetter c \<or> isDigit c \<or> c \<in> set ''!$&()*+,;=:[]<>-_.~'' \<or> c = CHR 0x27 \<or> c = CHR 0x22))"

definition badHostByte :: "char \<Rightarrow> bool" where
  "badHostByte c = ((of_char c :: nat) < 0x80 \<and> shouldEscapeHost c)"

fun unescapeHost :: "bool \<Rightarrow> string \<Rightarrow> string option" where
  "unescapeHost z [] = Some []"
| "unescapeHost z [c] = (if c = CHR ''%'' \<or> badHostByte c then None else Some [c])"
| "unescapeHost z [c, d] =
     (if c = CHR ''%'' \<or> badHostByte c then None else map_option ((#) c) (unescapeHost z [d]))"
| "unescapeHost z (c # h1 # h2 # cs) =
     (if c = CHR ''%'' then
        (if \<not> (ishex h1 \<and> ishex h2) then None
         else
           (let v = char_of (16 * unhex h1 + unhex h2) in
            if \<not> z \<and> unhex h1 < 8 \<and> [h1, h2] \<noteq> ''25'' then None
            else if z \<and> [h1, h2] \<noteq> ''25'' \<and> v \<noteq> CHR '' '' \<and> shouldEscapeHost v then None
            else map_option ((#) v) (unescapeHost z cs)))
      else if badHostByte c then None
      else map_option ((#) c) (unescapeHost z (h1 # h2 # cs)))"

definition validOptionalPort :: "string \<Rightarrow> bool" where
  "validOptionalPort port = (port = [] \<or> (hd port = CHR '':'' \<and> list_all isDigit (tl port)))"

definition validUserinfo :: "string \<Rightarrow> bool" where
  "validUserinfo s =
     list_all (\<lambda>c. isLetter c \<or> isDigit c \<or> c \<in> set ''-._:~!$&()*+,;=%@'' \<or> c = CHR 0x27) s"

text \<open>\<open>strings.Index\<close>: where a text first occurs in a string.\<close>

fun Index :: "string \<Rightarrow> string \<Rightarrow> nat option" where
  "Index [] p = (if p = [] then Some 0 else None)"
| "Index (x # xs) p = (if HasPrefix (x # xs) p then Some 0 else map_option Suc (Index xs p))"

definition parseHost :: "string \<Rightarrow> string option" where
  "parseHost host =
     (if HasPrefix host ''['' then
        (if CHR '']'' \<notin> set host then None
         else
           (let colonPort = rev (takeWhile (\<lambda>x. x \<noteq> CHR '']'') (rev host));
                literal = rev (drop 1 (dropWhile (\<lambda>x. x \<noteq> CHR '']'') (rev host)))
            in if \<not> validOptionalPort colonPort then None
               else
                 (case Index literal ''%25'' of
                    None \<Rightarrow> unescapeHost False host
                  | Some zone \<Rightarrow>
                      (case (unescapeHost False (take zone literal),
                             unescapeHost True (drop zone literal),
                             unescapeHost False (CHR '']'' # colonPort)) of
                         (Some h1, Some h2, Some h3) \<Rightarrow> Some (h1 @ h2 @ h3)
                       | _ \<Rightarrow> None))))
      else if CHR '':'' \<in> set host \<and>
              \<not> validOptionalPort (CHR '':'' # rev (takeWhile (\<lambda>x. x \<noteq> CHR '':'') (rev host)))
      then None
      else unescapeHost False host)"

definition parseAuthority :: "string \<Rightarrow> string option" where
  "parseAuthority authority =
     (if CHR ''@'' \<notin> set authority then parseHost authority
      else
        (let host = rev (takeWhile (\<lambda>x. x \<noteq> CHR ''@'') (rev authority));
             userinfo = rev (drop 1 (dropWhile (\<lambda>x. x \<noteq> CHR ''@'') (rev authority)))
         in case parseHost host of
              None \<Rightarrow> None
            | Some h \<Rightarrow>
                if \<not> validUserinfo userinfo then None
                else if CHR '':'' \<notin> set userinfo then map_option (\<lambda>_. h) (unescape userinfo)
                else
                  (let (username, password) = Cut userinfo (CHR '':'')
                   in case (unescape username, unescape password) of
                        (Some _, Some _) \<Rightarrow> Some h
                      | _ \<Rightarrow> None)))"

definition model_Parse :: "string \<Rightarrow> URL option" where
  "model_Parse rawURL =
     (let (u, frag) = Cut rawURL (CHR ''#'') in
      if list_ex isCTL u then None
      else if u = ''*'' then
        setFragment \<lparr>Scheme = [], Opaque = [], Host = [], Path = ''*'', RawQuery = [],
                     Fragment = []\<rparr> frag
      else
        (case getScheme u [] u of
           None \<Rightarrow> None
         | Some (scheme, rest) \<Rightarrow>
             (let scheme = map toLower scheme;
                  (rest, query) =
                    (if rest \<noteq> [] \<and> last rest = CHR ''?'' \<and> count_list rest (CHR ''?'') = 1
                     then (butlast rest, []) else Cut rest (CHR ''?''))
              in if \<not> HasPrefix rest ''/'' \<and> scheme \<noteq> [] then
                   setFragment \<lparr>Scheme = scheme, Opaque = rest, Host = [], Path = [],
                                RawQuery = query, Fragment = []\<rparr> frag
                 else if \<not> HasPrefix rest ''/'' \<and> CHR '':'' \<in> set (fst (Cut rest (CHR ''/'')))
                 then None
                 else
                   (let (host, rest) =
                          (if (scheme \<noteq> [] \<or> \<not> HasPrefix rest ''///'') \<and> HasPrefix rest ''//''
                           then (parseAuthority (takeWhile (\<lambda>x. x \<noteq> CHR ''/'') (drop 2 rest)),
                                 dropWhile (\<lambda>x. x \<noteq> CHR ''/'') (drop 2 rest))
                           else (Some [], rest))
                    in case (host, unescape rest) of
                         (Some h, Some path) \<Rightarrow>
                           setFragment \<lparr>Scheme = scheme, Opaque = [], Host = h, Path = path,
                                        RawQuery = query, Fragment = []\<rparr> frag
                       | _ \<Rightarrow> None))))"

text \<open>\<open>URL.String\<close> for a URL with a host whose path and fragment need no escaping.\<close>

definition model_String :: "URL \<Rightarrow> string" where
  "model_String u =
     (if Scheme u = [] then [] else Scheme u @ '':'') @
     (if Opaque u \<noteq> [] then Opaque u else ''//'' @ Host u @ Path u) @
     (if RawQuery u = [] then [] else ''?'' @ RawQuery u) @
     (if Fragment u = [] then [] else ''#'' @ Fragment u)"

text \<open>\<open>url.QueryEscape\<close> and \<open>Values.Encode\<close>: the keys in sorted order, joined with \<open>&\<close>.\<close>

definition QueryEscape :: "string \<Rightarrow> string" where
  "QueryEscape s = concat (map (\<lambda>c.
     if isLetter c \<or> isDigit c \<or> c \<in> set ''-_.~'' then [c]
     else if c = CHR '' '' then ''+''
     else [CHR ''%'', ''0123456789ABCDEF'' ! (of_char c div 16),
           ''0123456789ABCDEF'' ! (of_char c mod 16)]) s)"

fun join_amp :: "string list \<Rightarrow> string" where
  "join_amp [] = []"
| "join_amp [x] = x"
| "join_amp (x # y # ys) = x @ ''&'' @ join_amp (y # ys)"

definition model_Encode :: "(string \<times> string list) list \<Rightarrow> string" where
  "model_Encode q =
     join_amp (concat (map (\<lambda>(k, vs). map (\<lambda>v. QueryEscape k @ ''='' @ QueryEscape v) vs)
                           (sort_key fst q)))"

text \<open>
  The JSON texts of the examples are named, not spelled out: the body \<open>batch\<close> is a
  complete JSON value with four items, a portrait-only one, a malformed one and two
  landscape ones. The decoder returns a complete value whether or not the body ends
  with a read error after it; every other body of the examples is not JSON.
\<close>

definition sample_Decode :: "string \<Rightarrow> bool \<Rightarrow> root option" where
  "sample_Decode body err =
     (if body = ''batch''
      then Some \<lparr>BatchRsp = \<lparr>Items = [\<lparr>Item = ''portrait''\<rparr>, \<lparr>Item = ''malformed''\<rparr>,
                                       \<lparr>Item = ''landscape''\<rparr>, \<lparr>Item = ''landscape2''\<rparr>]\<rparr>\<rparr>
      else None)"

definition sample_Unmarshal :: "string \<Rightarrow> adEnvelope option" where
  "sample_Unmarshal s =
     (if s = ''portrait'' then
        Some \<lparr>Ad = Some \<lparr>IconHoverText = ''Dunes'', Title = ''Desert'', Copyright = ''(c) A'',
                          Landscape = None\<rparr>\<rparr>
      else if s = ''landscape'' then
        Some \<lparr>Ad = Some \<lparr>IconHoverText = '' '', Title = '' Coast '', Copyright = ''(c) B'',
                          Landscape = Some \<lparr>Asset = '' https://example.com/img123.jpg?foo=1 ''\<rparr>\<rparr>\<rparr>
      else if s = ''landscape2'' then
        Some \<lparr>Ad = Some \<lparr>IconHoverText = '' Hills '', Title = ''Green'', Copyright = [],
                          Landscape = Some \<lparr>Asset = ''https://example.com/a/hills''\<rparr>\<rparr>\<rparr>
      else if s = ''escape'' then
        Some \<lparr>Ad = Some \<lparr>IconHoverText = ''Lake'', Title = [], Copyright = [],
                          Landscape = Some \<lparr>Asset = ''https://example.com/a%zz''\<rparr>\<rparr>\<rparr>
      else if s = ''empty'' then Some \<lparr>Ad = None\<rparr>
      else None)"

text \<open>
  \<open>filepath.Clean\<close> and \<open>filepath.Join\<close> of two elements, with the separator \<open>/\<close>.
  \<open>Clean\<close> drops empty elements and \<open>.\<close> elements, and lets \<open>..\<close> remove the element
  before it; at the start of a rooted path \<open>..\<close> is dropped, at the start of any other
  path it is kept. \<open>Join\<close> ignores empty leading elements.
\<close>

fun split_at :: "char \<Rightarrow> string \<Rightarrow> string \<Rightarrow> string list" where
  "split_at c cur [] = [cur]"
| "split_at c cur (x # xs) = (if x = c then cur # split_at c [] xs else split_at c (cur @ [x]) xs)"

fun clean_elems :: "bool \<Rightarrow> string list \<Rightarrow> string list \<Rightarrow> string list" where
  "clean_elems rooted kept [] = kept"
| "clean_elems rooted kept (e # es) =
     (if e = [] \<or> e = ''.'' then clean_elems rooted kept es
      else if e = ''..'' then
        (if kept \<noteq> [] \<and> last kept \<noteq> ''..'' then clean_elems rooted (butlast kept) es
         else if \<not> rooted then clean_elems rooted (kept @ [''..'']) es
         else clean_elems rooted kept es)
      else clean_elems rooted (kept @ [e]) es)"

fun join_slash :: "string list \<Rightarrow> string" where
  "join_slash [] = []"
| "join_slash [x] = x"
| "join_slash (x # y # ys) = x @ ''/'' @ join_slash (y # ys)"

definition filepath_Clean :: "string \<Rightarrow> string" where
  "filepath_Clean path =
     (if path = [] then ''.''
      else
        (let rooted = (hd path = CHR ''/'');
             body = join_slash (clean_elems rooted [] (split_at (CHR ''/'') [] path));
             out = (if rooted then ''/'' @ body else body)
         in if out = [] then ''.'' else out))"

definition model_Join :: "string \<Rightarrow> string \<Rightarrow> string" where
  "model_Join dir name =
     (if dir \<noteq> [] then filepath_Clean (dir @ ''/'' @ name)
      else if name \<noteq> [] then filepath_Clean name
      else [])"

definition model_lib :: lib where
  "model_lib = \<lparr>url_Parse = model_Parse, url_String = model_String,
                 values_Encode = model_Encode, json_Decode = sample_Decode,
                 json_Unmarshal = sample_Unmarshal, filepath_Join = model_Join\<rparr>"

text \<open>An API that answers every request with the body \<open>batch\<close>.\<close>

definition sample_api :: "string \<Rightarrow> response option" where
  "sample_api u = Some \<lparr>StatusCode = 200, ContentLength = -1, Body = ''batch'', BodyErr = False\<rparr>"

text \<open>The descriptors the Parser returns for the body \<open>batch\<close>.\<close>

definition sample_descriptors :: "spotImage list" where
  "sample_descriptors =
     [\<lparr>URL = ''https://example.com/img123.jpg?foo=1'', FileName = ''img123.jpg'',
       Title = ''Coast'', Copyright = ''(c) B''\<rparr>,
      \<lparr>URL = ''https://example.com/a/hills'', FileName = ''hills.jpg'',
       Title = '' Hills '', Copyright = []\<rparr>]"

text \<open>
  Surroundings for the examples of \<open>download\<close>: an operating system on which every
  call succeeds, with a given answer of the network; and a directory \<open>out\<close> that holds
  the temporary file of an earlier, interrupted run.
\<close>

definition os_ok :: "response option \<Rightarrow> dl_env" where
  "os_ok r = \<lparr>do_result = r, create_ok = True, write_limit = None, close_ok = True,
              stat_ok = True, rename_ok = True\<rparr>"

definition stale_fs :: fs where
  "stale_fs = [''out'' \<mapsto> Dir, ''out/a.jpg.part'' \<mapsto> File ''stale'']"

definition empty_dir :: fs where
  "empty_dir = [''out'' \<mapsto> Dir]"

text \<open>
  Surroundings for the examples of the Poll Loop: an API that returns no descriptor
  (\<open>quiet\<close>), or the descriptors of the body \<open>batch\<close> in every round, with a network
  that is down for every download (\<open>offline\<close>) or answers every download with three
  bytes (\<open>online\<close>).
\<close>

definition quiet :: world where
  "quiet = \<lparr>fetch = (\<lambda>n. Inr []), net = (\<lambda>n u. os_ok None)\<rparr>"

definition offline :: world where
  "offline = \<lparr>fetch = (\<lambda>n. Inr sample_descriptors), net = (\<lambda>n u. os_ok None)\<rparr>"


definition to_out :: config where
  "to_out = \<lparr>outDir = ''out'', verbose = True\<rparr>"



section \<open>The Deduplicator\<close>

text \<open>
  The loop from any set \<open>S\<close> of keys and any slice \<open>out\<close>: it appends the entries whose
  URL is not empty, not in \<open>S\<close> and not seen earlier in the input.
\<close>

lemma dedupe_loop_nths:
  "dedupe_loop S out xs =
     out @ nths xs {i. URL (xs ! i) \<noteq> [] \<and> URL (xs ! i) \<notin> S \<union> set (map URL (take i xs))}"
proof (induction xs arbitrary: S out)
  case Nil
  then show ?case by simp
next
  case (Cons x xs)
  let ?A = "{i. URL ((x # xs) ! i) \<noteq> [] \<and>
                URL ((x # xs) ! i) \<notin> S \<union> set (map URL (take i (x # xs)))}"
  let ?B = "\<lambda>T. {j. URL (xs ! j) \<noteq> [] \<and> URL (xs ! j) \<notin> T \<union> set (map URL (take j xs))}"
  have shift: "{j. Suc j \<in> ?A} = ?B (insert (URL x) S)"
    by auto
  have head: "0 \<in> ?A \<longleftrightarrow> URL x \<noteq> [] \<and> URL x \<notin> S"
    by simp
  show ?case
  proof (cases "URL x = [] \<or> URL x \<in> S")
    case True
    have same: "?B (insert (URL x) S) = ?B S"
      using True by auto
    have "dedupe_loop S out (x # xs) = out @ nths xs (?B S)"
      using True Cons.IH by auto
    also have "\<dots> = out @ nths (x # xs) ?A"
      using True unfolding nths_Cons shift head same by auto
    finally show ?thesis .
  next
    case False
    have "dedupe_loop S out (x # xs) = (out @ [x]) @ nths xs (?B (insert (URL x) S))"
      using False Cons.IH by simp
    also have "\<dots> = out @ nths (x # xs) ?A"
      using False unfolding nths_Cons shift head by simp
    finally show ?thesis .
  qed
qed

lemma dedupe_loop_distinct:
  "distinct (map URL out) \<Longrightarrow> set (map URL out) \<subseteq> S \<Longrightarrow>
   distinct (map URL (dedupe_loop S out xs))"
proof (induction xs arbitrary: S out)
  case Nil
  then show ?case by simp
next
  case (Cons x xs)
  show ?case
  proof (cases "URL x = [] \<or> URL x \<in> S")
    case True
    then show ?thesis using Cons by auto
  next
    case False
    have "distinct (map URL (out @ [x]))" "set (map URL (out @ [x])) \<subseteq> insert (URL x) S"
      using False Cons.prems by auto
    then have "distinct (map URL (dedupe_loop (insert (URL x) S) (out @ [x]) xs))"
      by (rule Cons.IH)
    then show ?thesis using False by simp
  qed
qed

lemma dedupe_loop_nonempty:
  "[] \<notin> set (map URL out) \<Longrightarrow> [] \<notin> set (map URL (dedupe_loop S out xs))"
  by (induction xs arbitrary: S out) auto

text \<open>
  Claim C4. \<open>dedupe\<close> keeps exactly the entries whose URL is not empty and does not
  occur earlier in the input, in the order of the input: entry \<open>i\<close> is kept when its URL
  is not among the URLs of the first \<open>i\<close> entries. So the URLs of the output are
  pairwise different, none is empty, and the output is a subsequence of the input.
\<close>

theorem dedupe_first_occurrences:
  "dedupe xs = nths xs {i. URL (xs ! i) \<noteq> [] \<and> URL (xs ! i) \<notin> set (map URL (take i xs))}
   \<and> distinct (map URL (dedupe xs))
   \<and> [] \<notin> set (map URL (dedupe xs))
   \<and> subseq (dedupe xs) xs"
proof -
  have a: "dedupe xs = nths xs {i. URL (xs ! i) \<noteq> [] \<and> URL (xs ! i) \<notin> set (map URL (take i xs))}"
    by (simp add: dedupe_def dedupe_loop_nths)
  have b: "distinct (map URL (dedupe xs))"
    unfolding dedupe_def by (rule dedupe_loop_distinct) simp_all
  have c: "[] \<notin> set (map URL (dedupe xs))"
    unfolding dedupe_def by (rule dedupe_loop_nonempty) simp
  have d: "subseq (dedupe xs) xs"
    using a subseq_conv_nths by blast
  from a b c d show ?thesis by blast
qed

lemma dedupe_loop_urls:
  "set (map URL (dedupe_loop S out xs)) = set (map URL out) \<union> (set (map URL xs) - S - {[]})"
  by (induction xs arbitrary: S out) auto

lemma dedupe_urls: "URL ` set (dedupe xs) = URL ` set xs - {[]}"
  using dedupe_loop_urls[of "{}" "[]" xs] by (simp add: dedupe_def)

section \<open>The Response Parser\<close>

lemma in_map_filter: "y \<in> set (List.map_filter f xs) \<longleftrightarrow> (\<exists>x \<in> set xs. f x = Some y)"
  by (induction xs) (auto split: option.splits)

lemma map_filter_append:
  "List.map_filter f (xs @ ys) = List.map_filter f xs @ List.map_filter f ys"
  by (induction xs) (auto split: option.splits)

text \<open>The loop of \<open>fetchOnce\<close> appends what each item yields, in order.\<close>

lemma collect_yield: "collect L out its = out @ List.map_filter (yield L) its"
  by (induction its arbitrary: out)
     (auto simp: yield_def Let_def split: option.splits)

lemma yield_Some_iff:
  "yield L it = Some im \<longleftrightarrow>
   (\<exists>env a ls. json_Unmarshal L (Item it) = Some env \<and> Ad env = Some a \<and> Landscape a = Some ls \<and>
      HasPrefix (TrimSpace (Asset ls)) ''https://'' \<and>
      im = \<lparr>URL = TrimSpace (Asset ls), FileName = fileNameFromURL L (TrimSpace (Asset ls)),
            Title = firstNonEmpty (IconHoverText a) (ad.Title a),
            Copyright = ad.Copyright a\<rparr>)"
  by (auto simp: yield_def Let_def HasPrefix_def split: option.splits)

lemma fetchOnce_Inr:
  "fetchOnce L api c l = Inr out \<Longrightarrow>
   \<exists>resp r. api (fst (buildAPIURL L c l)) = Some resp \<and> StatusCode resp = 200 \<and>
     json_Decode L (Body resp) (BodyErr resp) = Some r \<and>
     out = dedupe (List.map_filter (yield L) (Items (BatchRsp r)))"
  by (auto simp: fetchOnce_def Let_def collect_yield split: option.splits if_splits)

text \<open>
  Claim C3. When \<open>fetchOnce\<close> returns descriptors, the response was decoded, every
  descriptor has a URL that is not empty and starts with \<open>https://\<close>, and the URLs
  returned are exactly the trimmed landscape assets of the items whose envelope parses,
  has an \<open>ad\<close> object and a landscape image, and whose trimmed asset starts with
  \<open>https://\<close>. Every other item contributes nothing.
\<close>

theorem fetchOnce_landscape_filter:
  assumes "fetchOnce L api c l = Inr out"
  shows "\<exists>resp r. api (fst (buildAPIURL L c l)) = Some resp \<and>
           json_Decode L (Body resp) (BodyErr resp) = Some r \<and>
           (\<forall>im \<in> set out. URL im \<noteq> [] \<and> HasPrefix (URL im) ''https://'') \<and>
           URL ` set out =
             {TrimSpace (Asset ls) | it env a ls.
                it \<in> set (Items (BatchRsp r)) \<and> json_Unmarshal L (Item it) = Some env \<and>
                Ad env = Some a \<and> Landscape a = Some ls \<and>
                HasPrefix (TrimSpace (Asset ls)) ''https://''}"
proof -
  from fetchOnce_Inr[OF assms] obtain resp r where
    resp: "api (fst (buildAPIURL L c l)) = Some resp" and
    r: "json_Decode L (Body resp) (BodyErr resp) = Some r" and
    out: "out = dedupe (List.map_filter (yield L) (Items (BatchRsp r)))"
    by blast
  let ?ys = "List.map_filter (yield L) (Items (BatchRsp r))"
  have ys: "URL ` set ?ys =
             {TrimSpace (Asset ls) | it env a ls.
                it \<in> set (Items (BatchRsp r)) \<and> json_Unmarshal L (Item it) = Some env \<and>
                Ad env = Some a \<and> Landscape a = Some ls \<and>
                HasPrefix (TrimSpace (Asset ls)) ''https://''}" (is "_ = ?U")
  proof (intro set_eqI iffI)
    fix u assume "u \<in> URL ` set ?ys"
    then obtain im it where it: "it \<in> set (Items (BatchRsp r))" and
      y: "yield L it = Some im" and u: "u = URL im"
      by (auto simp: in_map_filter)
    from y obtain env a ls where
      "json_Unmarshal L (Item it) = Some env" "Ad env = Some a" "Landscape a = Some ls"
      "HasPrefix (TrimSpace (Asset ls)) ''https://''" "URL im = TrimSpace (Asset ls)"
      unfolding yield_Some_iff by auto
    with it u show "u \<in> ?U"
      by blast
  next
    fix u assume "u \<in> ?U"
    then obtain it env a ls where
      it: "it \<in> set (Items (BatchRsp r))" and
      h: "json_Unmarshal L (Item it) = Some env" "Ad env = Some a" "Landscape a = Some ls"
         "HasPrefix (TrimSpace (Asset ls)) ''https://''" and
      u: "u = TrimSpace (Asset ls)"
      by blast
    let ?d = "\<lparr>URL = TrimSpace (Asset ls), FileName = fileNameFromURL L (TrimSpace (Asset ls)),
            Title = firstNonEmpty (IconHoverText a) (ad.Title a),
            Copyright = ad.Copyright a\<rparr>"
    have "yield L it = Some ?d"
      unfolding yield_Some_iff using h by blast
    then have "?d \<in> set ?ys"
      using it by (auto simp: in_map_filter)
    then have "URL ?d \<in> URL ` set ?ys"
      by (rule imageI)
    then show "u \<in> URL ` set ?ys"
      using u by simp
  qed
  have secure: "\<forall>u \<in> ?U. u \<noteq> [] \<and> HasPrefix u ''https://''"
    by (auto simp: HasPrefix_def)
  then have "[] \<notin> ?U" by blast
  then have urls: "URL ` set out = ?U"
    unfolding out dedupe_urls ys by blast
  have "\<forall>im \<in> set out. URL im \<noteq> [] \<and> HasPrefix (URL im) ''https://''"
  proof
    fix im assume "im \<in> set out"
    then have "URL im \<in> ?U" using urls by blast
    then show "URL im \<noteq> [] \<and> HasPrefix (URL im) ''https://''"
      using secure by blast
  qed
  with resp r urls show ?thesis by blast
qed

lemma sample_fetch:
  "fetchOnce model_lib sample_api ''US'' ''en-US'' = Inr sample_descriptors"
  by code_simp

theorem fetchOnce_landscape_filter_witness:
  "fetchOnce model_lib sample_api ''US'' ''en-US'' = Inr sample_descriptors \<and>
   list_all (\<lambda>im. URL im \<noteq> [] \<and> HasPrefix (URL im) ''https://'') sample_descriptors"
proof -
  from fetchOnce_landscape_filter[OF sample_fetch]
  have "\<forall>im \<in> set sample_descriptors. URL im \<noteq> [] \<and> HasPrefix (URL im) ''https://''"
    by blast
  then show ?thesis
    using sample_fetch by (simp add: list_all_iff)
qed

text \<open>
  Claim C6. With the request sent and answered with status 200: when the outer object
  cannot be decoded, \<open>fetchOnce\<close> returns the decode error and no descriptors. When
  it is decoded and one inner item cannot be parsed as an envelope, only that item is
  dropped: \<open>fetchOnce\<close> returns the deduplicated descriptors that the items before it
  and the items after it yield, in their order.
\<close>

theorem fetchOnce_decode_failures:
  assumes "url_Parse L (fst (buildAPIURL L c l)) = Some pu"
    and "api (fst (buildAPIURL L c l)) = Some resp"
    and "StatusCode resp = 200"
  shows "(json_Decode L (Body resp) (BodyErr resp) = None \<longrightarrow>
            fetchOnce L api c l = Inl ErrDecode) \<and>
         (\<forall>r xs bad ys.
            json_Decode L (Body resp) (BodyErr resp) = Some r \<and>
            Items (BatchRsp r) = xs @ bad # ys \<and> json_Unmarshal L (Item bad) = None \<longrightarrow>
            fetchOnce L api c l =
              Inr (dedupe (List.map_filter (yield L) xs @ List.map_filter (yield L) ys)))"
proof (intro conjI impI allI)
  assume "json_Decode L (Body resp) (BodyErr resp) = None"
  then show "fetchOnce L api c l = Inl ErrDecode"
    using assms by (simp add: fetchOnce_def Let_def)
next
  fix r xs bad ys
  assume h: "json_Decode L (Body resp) (BodyErr resp) = Some r \<and>
            Items (BatchRsp r) = xs @ bad # ys \<and> json_Unmarshal L (Item bad) = None"
  then have "yield L bad = None"
    by (simp add: yield_def)
  then have "collect L [] (xs @ bad # ys) =
             List.map_filter (yield L) xs @ List.map_filter (yield L) ys"
    by (simp add: collect_yield map_filter_append)
  then show "fetchOnce L api c l =
              Inr (dedupe (List.map_filter (yield L) xs @ List.map_filter (yield L) ys))"
    using assms h by (simp add: fetchOnce_def Let_def)
qed

lemma sample_request:
  "url_Parse model_lib (fst (buildAPIURL model_lib ''US'' ''en-US'')) =
     Some \<lparr>Scheme = ''https'', Opaque = [], Host = ''fd.api.iris.microsoft.com'',
           Path = ''/v4/api/selection'',
           RawQuery = ''bcnt=4&country=US&fmt=json&locale=en-US&placement=88000820'',
           Fragment = []\<rparr>"
  by code_simp

lemma sample_yields:
  "List.map_filter (yield model_lib) [\<lparr>Item = ''portrait''\<rparr>] = [] \<and>
   dedupe (List.map_filter (yield model_lib)
             [\<lparr>Item = ''landscape''\<rparr>, \<lparr>Item = ''landscape2''\<rparr>]) = sample_descriptors"
  by code_simp

theorem fetchOnce_decode_failures_witness:
  "fetchOnce model_lib
     (\<lambda>u. Some \<lparr>StatusCode = 200, ContentLength = -1, Body = ''<html>'', BodyErr = False\<rparr>)
     ''US'' ''en-US'' = Inl ErrDecode \<and>
   fetchOnce model_lib sample_api ''US'' ''en-US'' =
     Inr (dedupe (List.map_filter (yield model_lib) [\<lparr>Item = ''portrait''\<rparr>] @
                  List.map_filter (yield model_lib)
                    [\<lparr>Item = ''landscape''\<rparr>, \<lparr>Item = ''landscape2''\<rparr>])) \<and>
   fetchOnce model_lib sample_api ''US'' ''en-US'' = Inr sample_descriptors"
proof -
  let ?bad = "\<lparr>StatusCode = 200, ContentLength = -1, Body = ''<html>'', BodyErr = False\<rparr>"
  have d: "json_Decode model_lib (Body ?bad) (BodyErr ?bad) = None"
    by (simp add: model_lib_def sample_Decode_def)
  have a: "fetchOnce model_lib (\<lambda>u. Some ?bad) ''US'' ''en-US'' = Inl ErrDecode"
    using fetchOnce_decode_failures[where api = "\<lambda>u. Some ?bad" and resp = ?bad,
        OF sample_request, THEN conjunct1] d
    by simp
  let ?ok = "\<lparr>StatusCode = 200, ContentLength = -1, Body = ''batch'', BodyErr = False\<rparr>"
  let ?r = "\<lparr>BatchRsp = \<lparr>Items = [\<lparr>Item = ''portrait''\<rparr>, \<lparr>Item = ''malformed''\<rparr>,
                                       \<lparr>Item = ''landscape''\<rparr>, \<lparr>Item = ''landscape2''\<rparr>]\<rparr>\<rparr>"
  have r: "json_Decode model_lib (Body ?ok) (BodyErr ?ok) = Some ?r"
    by (simp add: model_lib_def sample_Decode_def)
  have items: "Items (BatchRsp ?r) =
      [\<lparr>Item = ''portrait''\<rparr>] @ \<lparr>Item = ''malformed''\<rparr> # [\<lparr>Item = ''landscape''\<rparr>, \<lparr>Item = ''landscape2''\<rparr>]"
    by simp
  have bad: "json_Unmarshal model_lib (Item \<lparr>Item = ''malformed''\<rparr>) = None"
    by (simp add: model_lib_def sample_Unmarshal_def)
  have api: "sample_api (fst (buildAPIURL model_lib ''US'' ''en-US'')) = Some ?ok"
    by (simp add: sample_api_def)
  have st: "StatusCode ?ok = 200"
    by simp
  have b: "fetchOnce model_lib sample_api ''US'' ''en-US'' =
     Inr (dedupe (List.map_filter (yield model_lib) [\<lparr>Item = ''portrait''\<rparr>] @
                  List.map_filter (yield model_lib)
                    [\<lparr>Item = ''landscape''\<rparr>, \<lparr>Item = ''landscape2''\<rparr>]))"
    using fetchOnce_decode_failures[where api = sample_api and resp = ?ok,
        OF sample_request api st, THEN conjunct2, rule_format,
        of ?r "[\<lparr>Item = ''portrait''\<rparr>]" "\<lparr>Item = ''malformed''\<rparr>"
           "[\<lparr>Item = ''landscape''\<rparr>, \<lparr>Item = ''landscape2''\<rparr>]"]
      r items bad
    by blast
  have c: "fetchOnce model_lib sample_api ''US'' ''en-US'' = Inr sample_descriptors"
    using b sample_yields by simp
  from a b c show ?thesis by simp
qed

text \<open>
  Claim C9. \<open>firstNonEmpty\<close> trims its second argument but returns its first argument
  as it is: the hover text \<open>" Hills "\<close> is returned with its spaces, although its trimmed
  form is \<open>"Hills"\<close>.
\<close>

theorem firstNonEmpty_untrimmed:
  "firstNonEmpty '' Hills '' ''Green'' = '' Hills '' \<and> TrimSpace '' Hills '' = ''Hills''"
  by code_simp

section \<open>The API URL\<close>

text \<open>
  Claim C10. The error \<open>buildAPIURL\<close> returns is \<open>nil\<close> for every country and locale,
  whatever \<open>url.Parse\<close> does; where \<open>url.Parse\<close> fails it returns the empty string with
  a \<open>nil\<close> error. The only request-construction error \<open>fetchOnce\<close> reports comes from
  \<open>http.NewRequestWithContext\<close> rejecting the URL.
\<close>

theorem buildAPIURL_never_fails:
  "snd (buildAPIURL L country locale) = None \<and>
   (url_Parse L ''https://fd.api.iris.microsoft.com/v4/api/selection'' = None \<longrightarrow>
      buildAPIURL L country locale = ([], None)) \<and>
   (fetchOnce L api country locale = Inl ErrNewRequest \<longrightarrow>
      url_Parse L (fst (buildAPIURL L country locale)) = None)"
  by (auto simp: buildAPIURL_def fetchOnce_def Let_def split: option.splits if_splits)

theorem buildAPIURL_never_fails_witness:
  "buildAPIURL (model_lib\<lparr>url_Parse := \<lambda>u. None\<rparr>) ''US'' ''en-US'' = ([], None) \<and>
   fetchOnce (model_lib\<lparr>url_Parse := \<lambda>u. None\<rparr>) sample_api ''US'' ''en-US'' = Inl ErrNewRequest"
proof -
  let ?L = "model_lib\<lparr>url_Parse := \<lambda>u. None\<rparr>"
  have p: "url_Parse ?L ''https://fd.api.iris.microsoft.com/v4/api/selection'' = None"
    by simp
  have "buildAPIURL ?L ''US'' ''en-US'' = ([], None)"
    using buildAPIURL_never_fails[of ?L "''US''" "''en-US''" sample_api] p by blast
  moreover have "fetchOnce ?L sample_api ''US'' ''en-US'' = Inl ErrNewRequest"
    by (simp add: fetchOnce_def)
  ultimately show ?thesis by simp
qed

section \<open>The Downloader\<close>

text \<open>
  What a call of \<open>download\<close> can do to the file system, by the error it returns: the
  only paths it touches are the temporary path and, on success, the destination.
\<close>

lemma download_cases:
  "download L env fs src dst = (r, fs') \<Longrightarrow>
   (r \<in> {Some ErrNewRequest, Some ErrTransport, Some ErrCreate} \<union> (Some ` range ErrHttpStatus) \<and> fs' = fs) \<or>
   (r \<in> {Some ErrCopy, Some ErrClose, Some ErrStat, Some ErrSizeMismatch} \<and>
      (\<exists>bs. fs' = (fs(dst @ ''.part'' \<mapsto> File bs))(dst @ ''.part'' := None))) \<or>
   (r = Some ErrRename \<and> (\<exists>bs. fs' = fs(dst @ ''.part'' \<mapsto> File bs))) \<or>
   (r = None \<and> (\<exists>bs. fs' = (fs(dst @ ''.part'' \<mapsto> File bs))(dst := Some (File bs), dst @ ''.part'' := None)))"
  unfolding download_def os_Create_def os_Remove_def os_Rename_def Let_def
  by (auto split: option.splits if_splits prod.splits)

text \<open>
  Claim C1, as amended. When \<open>download\<close> returns an error, the destination path is as
  it was before the call, and so is every path but the temporary one. After a copy
  error, a close error, a stat error or a size mismatch the temporary file does not
  exist. After a transport error, a status other than 200, a rejected URL or a failed
  \<open>os.Create\<close> the file system is unchanged: nothing was created, and nothing is deleted.
  A transfer that breaks off while the body is copied ends in the copy error, with no
  temporary file and the destination untouched.
\<close>

theorem download_failure_cleanup:
  "(\<forall>e fs'. download L env fs src dst = (Some e, fs') \<longrightarrow>
      fs' dst = fs dst \<and>
      (\<forall>p. p \<noteq> dst @ ''.part'' \<longrightarrow> fs' p = fs p) \<and>
      (e \<in> {ErrCopy, ErrClose, ErrStat, ErrSizeMismatch} \<longrightarrow> fs' (dst @ ''.part'') = None) \<and>
      (e \<in> {ErrNewRequest, ErrTransport, ErrCreate} \<union> range ErrHttpStatus \<longrightarrow> fs' = fs)) \<and>
   (\<forall>pu resp fs1.
      url_Parse L src = Some pu \<and> do_result env = Some resp \<and> StatusCode resp = 200 \<and>
      os_Create env fs (dst @ ''.part'') = Some fs1 \<and> BodyErr resp \<longrightarrow>
      (\<exists>fs'. download L env fs src dst = (Some ErrCopy, fs') \<and>
             fs' (dst @ ''.part'') = None \<and> fs' dst = fs dst))"
proof (intro conjI allI impI)
  fix e fs'
  assume d: "download L env fs src dst = (Some e, fs')"
  from download_cases[OF d]
  show "fs' dst = fs dst" by auto
  from download_cases[OF d]
  show "\<And>p. p \<noteq> dst @ ''.part'' \<Longrightarrow> fs' p = fs p" by auto
  from download_cases[OF d]
  show "e \<in> {ErrCopy, ErrClose, ErrStat, ErrSizeMismatch} \<Longrightarrow> fs' (dst @ ''.part'') = None"
    by auto
  from download_cases[OF d]
  show "e \<in> {ErrNewRequest, ErrTransport, ErrCreate} \<union> range ErrHttpStatus \<Longrightarrow> fs' = fs"
    by auto
next
  fix pu resp fs1
  assume h: "url_Parse L src = Some pu \<and> do_result env = Some resp \<and> StatusCode resp = 200 \<and>
      os_Create env fs (dst @ ''.part'') = Some fs1 \<and> BodyErr resp"
  then have c: "snd (io_Copy env resp)"
    by (simp add: io_Copy_def split: option.splits)
  obtain r fs' where d: "download L env fs src dst = (r, fs')"
    by (cases "download L env fs src dst")
  have "r = Some ErrCopy"
    using d h c unfolding download_def Let_def
    by (auto split: prod.splits)
  with download_cases[OF d] d
  show "\<exists>fs'. download L env fs src dst = (Some ErrCopy, fs') \<and>
             fs' (dst @ ''.part'') = None \<and> fs' dst = fs dst"
    by auto
qed

theorem download_failure_cleanup_witness:
  "\<exists>fs'. download model_lib
       (os_ok (Some \<lparr>StatusCode = 200, ContentLength = 1000, Body = ''abc'', BodyErr = True\<rparr>))
       empty_dir ''https://example.com/a.jpg'' ''out/a.jpg'' = (Some ErrCopy, fs') \<and>
     fs' ''out/a.jpg.part'' = None \<and> fs' ''out/a.jpg'' = None"
proof -
  let ?resp = "\<lparr>StatusCode = 200, ContentLength = 1000, Body = ''abc'', BodyErr = True\<rparr>"
  have p: "url_Parse model_lib ''https://example.com/a.jpg'' =
             Some \<lparr>Scheme = ''https'', Opaque = [], Host = ''example.com'', Path = ''/a.jpg'',
                   RawQuery = [], Fragment = []\<rparr>"
    by code_simp
  have c: "os_Create (os_ok (Some ?resp)) empty_dir (''out/a.jpg'' @ ''.part'') =
             Some (empty_dir(''out/a.jpg'' @ ''.part'' \<mapsto> File []))"
    by (simp add: os_Create_def os_ok_def empty_dir_def)
  have e: "empty_dir ''out/a.jpg'' = None"
    by (simp add: empty_dir_def)
  from download_failure_cleanup[of model_lib "os_ok (Some ?resp)" empty_dir
      "''https://example.com/a.jpg''" "''out/a.jpg''", THEN conjunct2, rule_format,
      of _ ?resp "empty_dir(''out/a.jpg'' @ ''.part'' \<mapsto> File [])"] p c
  have "\<exists>fs'. download model_lib (os_ok (Some ?resp)) empty_dir
           ''https://example.com/a.jpg'' ''out/a.jpg'' = (Some ErrCopy, fs') \<and>
         fs' (''out/a.jpg'' @ ''.part'') = None \<and> fs' ''out/a.jpg'' = empty_dir ''out/a.jpg''"
    by (simp add: os_ok_def)
  then show ?thesis
    using e by simp
qed

text \<open>
  Claim C1 as stated fails where a temporary file is already there: the request for
  \<open>a.jpg\<close> is answered with status 404, \<open>download\<close> returns the status error, and the
  file \<open>out/a.jpg.part\<close> left by an earlier run still exists. The Downloader deletes
  nothing on this path.
\<close>

theorem download_stale_part_survives:
  "fst (download model_lib
          (os_ok (Some \<lparr>StatusCode = 404, ContentLength = 0, Body = [], BodyErr = False\<rparr>))
          stale_fs ''https://example.com/a.jpg'' ''out/a.jpg'') = Some (ErrHttpStatus 404) \<and>
   snd (download model_lib
          (os_ok (Some \<lparr>StatusCode = 404, ContentLength = 0, Body = [], BodyErr = False\<rparr>))
          stale_fs ''https://example.com/a.jpg'' ''out/a.jpg'') ''out/a.jpg.part'' =
     Some (File ''stale'')"
  by code_simp

text \<open>
  Claim C5. Take a download whose response has status 200 and whose body was copied
  to the temporary file and closed without error, \<open>written\<close> being the bytes copied.
  When the response declares a positive content length and the size of the temporary
  file differs from it, \<open>download\<close> returns the size-mismatch error, the temporary file
  is deleted and the destination is as before. When the sizes agree, the file is
  renamed to the destination. When no positive content length is declared, neither a
  stat error nor a size mismatch can be returned, and the file is renamed to the
  destination whatever its size.
\<close>

theorem download_size_check:
  assumes "url_Parse L src = Some pu"
    and "do_result env = Some resp"
    and "StatusCode resp = 200"
    and "os_Create env fs (dst @ ''.part'') = Some fs1"
    and "io_Copy env resp = (written, False)"
    and "close_ok env"
  shows "(0 < ContentLength resp \<and> stat_ok env \<and> int (length written) \<noteq> ContentLength resp \<longrightarrow>
            (\<exists>fs'. download L env fs src dst = (Some ErrSizeMismatch, fs') \<and>
                   fs' (dst @ ''.part'') = None \<and> fs' dst = fs dst)) \<and>
         (0 < ContentLength resp \<and> stat_ok env \<and> int (length written) = ContentLength resp \<and>
          rename_ok env \<and> fs dst \<noteq> Some Dir \<longrightarrow>
            (\<exists>fs'. download L env fs src dst = (None, fs') \<and>
                   fs' (dst @ ''.part'') = None \<and> fs' dst = Some (File written))) \<and>
         (\<not> 0 < ContentLength resp \<longrightarrow>
            fst (download L env fs src dst) \<notin> {Some ErrStat, Some ErrSizeMismatch} \<and>
            (rename_ok env \<and> fs dst \<noteq> Some Dir \<longrightarrow>
               (\<exists>fs'. download L env fs src dst = (None, fs') \<and>
                      fs' (dst @ ''.part'') = None \<and> fs' dst = Some (File written))))"
  using assms
  unfolding download_def os_Create_def os_Remove_def os_Rename_def os_Stat_Size_def Let_def
  by (auto split: option.splits if_splits prod.splits)

theorem download_size_check_witness:
  "\<exists>fs'. download model_lib
       (os_ok (Some \<lparr>StatusCode = 200, ContentLength = 1000,
                     Body = replicate 900 (CHR ''x''), BodyErr = False\<rparr>))
       empty_dir ''https://example.com/a.jpg'' ''out/a.jpg'' = (Some ErrSizeMismatch, fs') \<and>
     fs' ''out/a.jpg.part'' = None \<and> fs' ''out/a.jpg'' = None"
proof -
  let ?resp = "\<lparr>StatusCode = 200, ContentLength = 1000,
                 Body = replicate 900 (CHR ''x''), BodyErr = False\<rparr>"
  have p: "url_Parse model_lib ''https://example.com/a.jpg'' =
             Some \<lparr>Scheme = ''https'', Opaque = [], Host = ''example.com'', Path = ''/a.jpg'',
                   RawQuery = [], Fragment = []\<rparr>"
    by code_simp
  have d: "do_result (os_ok (Some ?resp)) = Some ?resp"
    by (simp add: os_ok_def)
  have s: "StatusCode ?resp = 200"
    by simp
  have c: "os_Create (os_ok (Some ?resp)) empty_dir (''out/a.jpg'' @ ''.part'') =
             Some (empty_dir(''out/a.jpg'' @ ''.part'' \<mapsto> File []))"
    by (simp add: os_Create_def os_ok_def empty_dir_def)
  have w: "io_Copy (os_ok (Some ?resp)) ?resp = (replicate 900 (CHR ''x''), False)"
    by (simp add: io_Copy_def os_ok_def)
  have k: "close_ok (os_ok (Some ?resp))"
    by (simp add: os_ok_def)
  have m: "0 < ContentLength ?resp \<and> stat_ok (os_ok (Some ?resp)) \<and>
           int (length (replicate 900 (CHR ''x''))) \<noteq> ContentLength ?resp"
    by (simp add: os_ok_def)
  have e: "empty_dir ''out/a.jpg'' = None"
    by (simp add: empty_dir_def)
  from download_size_check[OF p d s c w k, THEN conjunct1, rule_format, OF m]
  show ?thesis
    using e by simp
qed

section \<open>File names\<close>

text \<open>
  Cutting at the index \<open>strings.IndexByte\<close> returns is taking the bytes before the
  first \<open>?\<close>; and \<open>filepath.Base\<close> of a path that ends in a non-empty segment without
  a slash is that segment.
\<close>

lemma IndexByte_neg: "IndexByte s c < 0 \<longleftrightarrow> c \<notin> set s"
  by (induction s) (auto simp: Let_def)

lemma IndexByte_cut:
  "(if IndexByte s c \<ge> 0 then take (nat (IndexByte s c)) s else s) = takeWhile (\<lambda>x. x \<noteq> c) s"
proof (induction s)
  case Nil
  then show ?case by simp
next
  case (Cons x s)
  show ?case
  proof (cases "x = c")
    case True
    then show ?thesis by simp
  next
    case False
    note neq = this
    show ?thesis
    proof (cases "IndexByte s c < 0")
      case True
      then have "\<forall>y \<in> set s. y \<noteq> c"
        by (auto simp: IndexByte_neg)
      then show ?thesis
        using neq True by (simp add: Let_def takeWhile_eq_all_conv[THEN iffD2])
    next
      case False
      then have ih: "takeWhile (\<lambda>x. x \<noteq> c) s = take (nat (IndexByte s c)) s"
        using Cons.IH by simp
      have "nat (IndexByte s c + 1) = Suc (nat (IndexByte s c))"
        using False by simp
      then show ?thesis
        using neq False ih by (simp add: Let_def)
    qed
  qed
qed

lemma filepath_Base_segment:
  assumes "seg \<noteq> []" and "CHR ''/'' \<notin> set seg"
  shows "filepath_Base (dir @ ''/'' @ seg) = seg"
proof -
  have r: "rev (dir @ ''/'' @ seg) = rev seg @ CHR ''/'' # rev dir"
    by simp
  have "hd (rev seg) \<noteq> CHR ''/''"
    using assms by (metis hd_rev last_in_set)
  moreover have "rev seg \<noteq> []"
    using assms(1) by simp
  ultimately have d: "dropWhile (\<lambda>c. c = CHR ''/'') (rev seg @ CHR ''/'' # rev dir) = rev seg @ CHR ''/'' # rev dir"
    by (cases "rev seg") auto
  have t: "takeWhile (\<lambda>c. c \<noteq> CHR ''/'') (rev seg @ CHR ''/'' # rev dir) = rev seg"
    using assms(2) by (auto simp: takeWhile_tail)
  show ?thesis
    using assms(1) unfolding filepath_Base_def Let_def r by (simp add: d t)
qed

lemma fileNameFromURL_Some:
  "url_Parse L u = Some pu \<Longrightarrow>
   fileNameFromURL L u =
     (let s = takeWhile (\<lambda>c. c \<noteq> CHR ''?'') (filepath_Base (Path pu))
      in if CHR ''.'' \<in> set s then s else s @ ''.jpg'')"
  unfolding fileNameFromURL_def Let_def using IndexByte_cut[of "filepath_Base (Path pu)" "CHR ''?''"]
  by (simp add: ContainsByte_def)

text \<open>
  Claim C8, as amended. When \<open>url.Parse\<close> rejects the URL, the file name is empty.
  When it accepts the URL, the file name contains a \<open>.\<close> and no \<open>?\<close>; and when the
  path ends in a non-empty segment after its last slash, the file name is that segment
  cut at its first \<open>?\<close>, with \<open>.jpg\<close> appended when what remains contains no \<open>.\<close>.
  For \<open>https://example.com/img123.jpg?foo=1\<close> the file name is \<open>img123.jpg\<close>.
\<close>

theorem fileNameFromURL_segment:
  "(url_Parse L u = None \<longrightarrow> fileNameFromURL L u = []) \<and>
   (\<forall>pu. url_Parse L u = Some pu \<longrightarrow>
      CHR ''.'' \<in> set (fileNameFromURL L u) \<and> CHR ''?'' \<notin> set (fileNameFromURL L u)) \<and>
   (\<forall>pu dir seg.
      url_Parse L u = Some pu \<and> Path pu = dir @ ''/'' @ seg \<and> seg \<noteq> [] \<and> CHR ''/'' \<notin> set seg \<longrightarrow>
      fileNameFromURL L u =
        (let s = takeWhile (\<lambda>c. c \<noteq> CHR ''?'') seg
         in if CHR ''.'' \<in> set s then s else s @ ''.jpg'')) \<and>
   fileNameFromURL model_lib ''https://example.com/img123.jpg?foo=1'' = ''img123.jpg''"
proof (intro conjI allI impI)
  assume "url_Parse L u = None"
  then show "fileNameFromURL L u = []"
    by (simp add: fileNameFromURL_def)
next
  fix pu assume p: "url_Parse L u = Some pu"
  have q: "CHR ''?'' \<notin> set (takeWhile (\<lambda>c. c \<noteq> CHR ''?'') (filepath_Base (Path pu)))"
    by (auto dest: set_takeWhileD)
  show "CHR ''.'' \<in> set (fileNameFromURL L u)"
    unfolding fileNameFromURL_Some[OF p] Let_def by simp
  show "CHR ''?'' \<notin> set (fileNameFromURL L u)"
    unfolding fileNameFromURL_Some[OF p] Let_def using q by simp
next
  fix pu dir seg
  assume h: "url_Parse L u = Some pu \<and> Path pu = dir @ ''/'' @ seg \<and> seg \<noteq> [] \<and> CHR ''/'' \<notin> set seg"
  then have "filepath_Base (Path pu) = seg"
    using filepath_Base_segment[of seg dir] by simp
  then show "fileNameFromURL L u =
        (let s = takeWhile (\<lambda>c. c \<noteq> CHR ''?'') seg
         in if CHR ''.'' \<in> set s then s else s @ ''.jpg'')"
    using fileNameFromURL_Some[of L u pu] h by simp
next
  show "fileNameFromURL model_lib ''https://example.com/img123.jpg?foo=1'' = ''img123.jpg''"
    by code_simp
qed

theorem fileNameFromURL_segment_witness:
  "fileNameFromURL model_lib ''https://example.com/a/b%3Fc.x'' = ''b.jpg'' \<and>
   fileNameFromURL (model_lib\<lparr>url_Parse := \<lambda>u. None\<rparr>) ''https://example.com/a/b%3Fc.x'' = []"
proof -
  let ?u = "''https://example.com/a/b%3Fc.x''"
  let ?pu = "\<lparr>Scheme = ''https'', Opaque = [], Host = ''example.com'', Path = ''/a/b?c.x'',
               RawQuery = [], Fragment = []\<rparr>"
  have p: "url_Parse model_lib ?u = Some ?pu"
    by code_simp
  have "fileNameFromURL model_lib ?u =
        (let s = takeWhile (\<lambda>c. c \<noteq> CHR ''?'') ''b?c.x''
         in if CHR ''.'' \<in> set s then s else s @ ''.jpg'')"
    using fileNameFromURL_segment[of model_lib ?u, THEN conjunct2, THEN conjunct2, THEN conjunct1,
        rule_format, of ?pu "''/a''" "''b?c.x''"] p
    by simp
  then have a: "fileNameFromURL model_lib ?u = ''b.jpg''"
    by simp
  have b: "fileNameFromURL (model_lib\<lparr>url_Parse := \<lambda>u. None\<rparr>) ?u = []"
    using fileNameFromURL_segment[of "model_lib\<lparr>url_Parse := \<lambda>u. None\<rparr>" ?u, THEN conjunct1]
    by simp
  from a b show ?thesis by simp
qed

text \<open>
  Claim C8 as stated fails for an asset that the Parser accepts and \<open>url.Parse\<close>
  rejects: the asset \<open>https://example.com/a%zz\<close> starts with \<open>https://\<close> and yields a
  descriptor, but its escape \<open>%zz\<close> is malformed, so the file name is empty, which
  is no path segment with or without the default extension.
\<close>

theorem fileNameFromURL_rejected_escape:
  "yield model_lib \<lparr>Item = ''escape''\<rparr> =
     Some \<lparr>URL = ''https://example.com/a%zz'', FileName = [], Title = ''Lake'', Copyright = []\<rparr> \<and>
   fileNameFromURL model_lib ''https://example.com/a%zz'' = []"
  by code_simp

section \<open>The Poll Loop\<close>

text \<open>
  What the inner loop and the end of a round leave unchanged, and a loop in which
  every round is empty: from a state where an invariant \<open>I\<close> holds that makes the fetch
  succeed and the round empty, the loop runs the rounds missing to 50 and returns.
\<close>

lemma visit_frame:
  "emptyRounds (fst (visit L nt C im a)) = emptyRounds (fst a) \<and>
   rounds (fst (visit L nt C im a)) = rounds (fst a) \<and>
   seen (fst a) \<subseteq> seen (fst (visit L nt C im a)) \<and>
   totalNew (fst (visit L nt C im a)) + snd a = totalNew (fst a) + snd (visit L nt C im a)"
  by (cases a) (auto simp: visit_def Let_def split: prod.splits option.splits)

lemma images_loop_frame:
  "emptyRounds (fst (images_loop L nt C ims a)) = emptyRounds (fst a) \<and>
   rounds (fst (images_loop L nt C ims a)) = rounds (fst a) \<and>
   seen (fst a) \<subseteq> seen (fst (images_loop L nt C ims a)) \<and>
   totalNew (fst (images_loop L nt C ims a)) + snd a = totalNew (fst a) + snd (images_loop L nt C ims a)"
proof (induction ims arbitrary: a)
  case Nil
  then show ?case by simp
next
  case (Cons im ims)
  from Cons.IH[of "visit L nt C im a"] visit_frame[of L nt C im a]
  show ?case by auto
qed

lemma end_round_fields:
  "rounds (end_round a) = rounds (fst a) + 1 \<and> seen (end_round a) = seen (fst a) \<and>
   totalNew (end_round a) = totalNew (fst a) \<and> disk (end_round a) = disk (fst a) \<and>
   downloads (end_round a) = downloads (fst a) \<and>
   emptyRounds (end_round a) = (if snd a = 0 then emptyRounds (fst a) + 1 else 0)"
  by (cases a) (simp add: end_round_def)

lemma finish_fields:
  "rounds (finish C s) = rounds s \<and> seen (finish C s) = seen s \<and>
   totalNew (finish C s) = totalNew s \<and> disk (finish C s) = disk s \<and>
   downloads (finish C s) = downloads s \<and> emptyRounds (finish C s) = emptyRounds s"
  by (simp add: finish_def)

lemma main_loop_idle:
  assumes step: "\<And>s. I s \<Longrightarrow> \<exists>imgs. fetch W (rounds s) = Inr imgs \<and>
                    snd (images_loop L (net W (rounds s)) C imgs (s, 0)) = 0 \<and>
                    I (end_round (images_loop L (net W (rounds s)) C imgs (s, 0)))"
    and fin: "\<And>s. I s \<Longrightarrow> I (finish C s)"
  shows "I s \<Longrightarrow> emptyRounds s \<le> 50 \<Longrightarrow>
         (k < 50 - emptyRounds s \<longrightarrow> main_loop k L W C s = None) \<and>
         (50 - emptyRounds s \<le> k \<longrightarrow>
            (\<exists>s'. main_loop k L W C s = Some (Exit0 s') \<and> I s' \<and>
                  rounds s' = rounds s + (50 - emptyRounds s) \<and> emptyRounds s' = 50 \<and>
                  totalNew s' = totalNew s))"
proof (induction k arbitrary: s)
  case 0
  then show ?case
    using fin[of s] finish_fields[of C s] by (auto simp: maxEmptyRounds_def)
next
  case (Suc k)
  show ?case
  proof (cases "emptyRounds s < 50")
    case False
    then have "emptyRounds s = 50" using Suc.prems by simp
    then show ?thesis
      using fin[OF Suc.prems(1)] finish_fields[of C s] by (auto simp: maxEmptyRounds_def)
  next
    case True
    from step[OF Suc.prems(1)] obtain imgs where
      f: "fetch W (rounds s) = Inr imgs" and
      z: "snd (images_loop L (net W (rounds s)) C imgs (s, 0)) = 0" and
      i: "I (end_round (images_loop L (net W (rounds s)) C imgs (s, 0)))"
      by blast
    let ?r = "images_loop L (net W (rounds s)) C imgs (s, 0)"
    let ?s1 = "end_round ?r"
    have fr: "emptyRounds (fst ?r) = emptyRounds s" "rounds (fst ?r) = rounds s"
      "totalNew (fst ?r) = totalNew s"
      using images_loop_frame[of L "net W (rounds s)" C imgs "(s, 0)"] z by auto
    have s1: "emptyRounds ?s1 = emptyRounds s + 1" "rounds ?s1 = rounds s + 1"
      "totalNew ?s1 = totalNew s"
      using end_round_fields[of ?r] fr z by auto
    have le: "emptyRounds ?s1 \<le> 50" using s1 True by simp
    have unfold: "main_loop (Suc k) L W C s = main_loop k L W C ?s1"
      using True f by (simp add: maxEmptyRounds_def)
    from Suc.IH[OF i le] show ?thesis
      unfolding unfold s1 using True by auto
  qed
qed

lemma visit_barren:
  assumes "URL im \<in> seen s \<or> fileNameFromURL L (URL im) = [] \<or>
           (\<forall>fs dst. fst (download L (nt (URL im)) fs (URL im) dst) \<noteq> None)"
  shows "snd (visit L nt C im (s, n)) = n"
proof -
  have "\<And>fs dst fs'. \<forall>fs dst. fst (download L (nt (URL im)) fs (URL im) dst) \<noteq> None \<Longrightarrow>
          download L (nt (URL im)) fs (URL im) dst \<noteq> (None, fs')"
    by (metis fst_conv)
  then show ?thesis
    using assms by (auto simp: visit_def Let_def split: prod.splits option.splits)
qed

lemma images_loop_barren:
  "\<forall>im \<in> set ims. URL im \<in> S \<or> fileNameFromURL L (URL im) = [] \<or>
      (\<forall>fs dst. fst (download L (nt (URL im)) fs (URL im) dst) \<noteq> None) \<Longrightarrow>
   S \<subseteq> seen (fst a) \<Longrightarrow> snd (images_loop L nt C ims a) = snd a"
proof (induction ims arbitrary: a)
  case Nil
  then show ?case by simp
next
  case (Cons im ims)
  obtain s n where a: "a = (s, n)" by (cases a)
  have b: "URL im \<in> seen s \<or> fileNameFromURL L (URL im) = [] \<or>
           (\<forall>fs dst. fst (download L (nt (URL im)) fs (URL im) dst) \<noteq> None)"
    using Cons.prems a by auto
  have "snd (visit L nt C im (s, n)) = n"
    using b by (rule visit_barren)
  then have v: "snd (visit L nt C im a) = snd a"
    unfolding a by simp
  have sub: "S \<subseteq> seen (fst (visit L nt C im a))"
    using visit_frame[of L nt C im a] Cons.prems(2) by blast
  have "snd (images_loop L nt C ims (visit L nt C im a)) = snd (visit L nt C im a)"
    using Cons.IH[OF _ sub] Cons.prems(1) by simp
  then show ?case using v by simp
qed

lemma images_loop_mono: "snd a \<le> snd (images_loop L nt C ims a)"
proof (induction ims arbitrary: a)
  case Nil
  then show ?case by simp
next
  case (Cons im ims)
  have "snd a \<le> snd (visit L nt C im a)"
    by (cases a) (auto simp: visit_def Let_def split: prod.splits option.splits)
  also have "\<dots> \<le> snd (images_loop L nt C ims (visit L nt C im a))"
    by (rule Cons.IH)
  finally show ?case by simp
qed

lemma visit_saved:
  assumes "URL im \<notin> seen s" and "fileNameFromURL L (URL im) \<noteq> []"
    and "\<not> exists (disk s) (filepath_Join L (outDir C) (fileNameFromURL L (URL im)))"
    and "fst (download L (nt (URL im)) (disk s) (URL im)
               (filepath_Join L (outDir C) (fileNameFromURL L (URL im)))) = None"
  shows "snd (visit L nt C im (s, n)) = n + 1"
  using assms by (auto simp: visit_def Let_def split: prod.splits option.splits)

text \<open>
  A run listed state by state, and a run whose descriptors are all seen, nameless or
  impossible to download.
\<close>

lemma trace_fields:
  assumes tr: "\<forall>i<50. \<exists>imgs. fetch W (rounds (tr i)) = Inr imgs \<and>
                 snd (images_loop L (net W (rounds (tr i))) C imgs (tr i, 0)) = 0 \<and>
                 tr (Suc i) = end_round (images_loop L (net W (rounds (tr i))) C imgs (tr i, 0))"
    and e0: "emptyRounds (tr 0) = 0"
  shows "i \<le> 50 \<Longrightarrow> emptyRounds (tr i) = i \<and> rounds (tr i) = rounds (tr 0) + i \<and>
                      totalNew (tr i) = totalNew (tr 0)"
proof (induction i)
  case 0
  then show ?case using e0 by simp
next
  case (Suc i)
  then have lt: "i < 50" and ih: "emptyRounds (tr i) = i" "rounds (tr i) = rounds (tr 0) + i"
      "totalNew (tr i) = totalNew (tr 0)"
    by auto
  from tr lt obtain imgs where
    z: "snd (images_loop L (net W (rounds (tr i))) C imgs (tr i, 0)) = 0" and
    n: "tr (Suc i) = end_round (images_loop L (net W (rounds (tr i))) C imgs (tr i, 0))"
    by blast
  let ?r = "images_loop L (net W (rounds (tr i))) C imgs (tr i, 0)"
  have "emptyRounds (fst ?r) = emptyRounds (tr i)" "rounds (fst ?r) = rounds (tr i)"
      "totalNew (fst ?r) = totalNew (tr i)"
    using images_loop_frame[of L "net W (rounds (tr i))" C imgs "(tr i, 0)"] z by auto
  then show ?case
    unfolding n using end_round_fields[of ?r] z ih by simp
qed

lemma main_loop_trace:
  assumes tr: "\<forall>i<50. \<exists>imgs. fetch W (rounds (tr i)) = Inr imgs \<and>
                 snd (images_loop L (net W (rounds (tr i))) C imgs (tr i, 0)) = 0 \<and>
                 tr (Suc i) = end_round (images_loop L (net W (rounds (tr i))) C imgs (tr i, 0))"
    and e0: "emptyRounds (tr 0) = 0"
  shows "i \<le> 50 \<Longrightarrow>
         main_loop k L W C (tr i) = (if k < 50 - i then None else Some (Exit0 (finish C (tr 50))))"
proof (induction k arbitrary: i)
  case 0
  have "emptyRounds (tr i) = i"
    using trace_fields[OF tr e0 0] by simp
  then show ?case
    using 0 by (auto simp: maxEmptyRounds_def)
next
  case (Suc k)
  have e: "emptyRounds (tr i) = i"
    using trace_fields[OF tr e0 Suc.prems] by simp
  show ?case
  proof (cases "i < 50")
    case False
    then have "i = 50" using Suc.prems by simp
    then show ?thesis
      using e by (simp add: maxEmptyRounds_def)
  next
    case True
    from tr True obtain imgs where
      f: "fetch W (rounds (tr i)) = Inr imgs" and
      n: "tr (Suc i) = end_round (images_loop L (net W (rounds (tr i))) C imgs (tr i, 0))"
      by blast
    have "main_loop (Suc k) L W C (tr i) = main_loop k L W C (tr (Suc i))"
      using True e f n by (simp add: maxEmptyRounds_def)
    also have "\<dots> = (if k < 50 - Suc i then None else Some (Exit0 (finish C (tr 50))))"
      using Suc.IH[of "Suc i"] True by simp
    finally show ?thesis
      using True by auto
  qed
qed

lemma main_loop_barren:
  assumes b: "\<forall>n \<ge> rounds st. \<exists>imgs. fetch W n = Inr imgs \<and>
             (\<forall>im \<in> set imgs. URL im \<in> seen st \<or> fileNameFromURL L (URL im) = [] \<or>
                (\<forall>fs dst. fst (download L (net W n (URL im)) fs (URL im) dst) \<noteq> None))"
    and e0: "emptyRounds st = 0"
  shows "(50 \<le> k \<longrightarrow> (\<exists>st'. main_loop k L W C st = Some (Exit0 st') \<and>
            rounds st' = rounds st + 50 \<and> emptyRounds st' = 50 \<and> totalNew st' = totalNew st)) \<and>
         (k < 50 \<longrightarrow> main_loop k L W C st = None)"
proof -
  define I where "I = (\<lambda>s :: state. seen st \<subseteq> seen s \<and> rounds st \<le> rounds s)"
  have step: "\<exists>imgs. fetch W (rounds s) = Inr imgs \<and>
                snd (images_loop L (net W (rounds s)) C imgs (s, 0)) = 0 \<and>
                I (end_round (images_loop L (net W (rounds s)) C imgs (s, 0)))" if "I s" for s
  proof -
    from that have r: "rounds st \<le> rounds s" and sub: "seen st \<subseteq> seen s"
      by (auto simp: I_def)
    from b r obtain imgs where
      f: "fetch W (rounds s) = Inr imgs" and
      c: "\<forall>im \<in> set imgs. URL im \<in> seen st \<or> fileNameFromURL L (URL im) = [] \<or>
            (\<forall>fs dst. fst (download L (net W (rounds s) (URL im)) fs (URL im) dst) \<noteq> None)"
      by blast
    let ?r = "images_loop L (net W (rounds s)) C imgs (s, 0)"
    have z: "snd ?r = 0"
      using images_loop_barren[where S = "seen st" and a = "(s, 0)" and C = C, OF c] sub by simp
    have "I (end_round ?r)"
      using images_loop_frame[of L "net W (rounds s)" C imgs "(s, 0)"] end_round_fields[of ?r]
        r sub by (auto simp: I_def)
    with f z show ?thesis by blast
  qed
  have fin: "I (finish C s)" if "I s" for s
    using that finish_fields[of C s] by (simp add: I_def)
  have "I st" by (simp add: I_def)
  from main_loop_idle[of I W L C, OF step fin this, of k] e0
  show ?thesis by auto
qed

text \<open>
  Claim C2. Take a state with no empty round counted. For every run from it whose
  first 50 rounds are empty (\<open>tr\<close> lists its states round by round: in each the fetch
  succeeds and the round counts no new download), the loop ends with status 0 after
  exactly 50 rounds: with fewer than 50 rounds allowed it is still running, with 50 or
  more it has exited normally from the state after round 50, where 50 empty rounds
  are counted and no download is new. Such is every run in which each descriptor the
  Fetcher returns was seen before, or has no file name, or cannot be downloaded. A
  round with at least one successful download sets the counter of empty rounds to 0:
  the number a round counts is the number of its successful downloads, and a round
  that starts with a new image downloaded successfully ends with the counter at 0.
\<close>

theorem poll_loop_stops_after_empty_rounds:
  assumes "emptyRounds st = 0"
  shows "(\<forall>tr. tr 0 = st \<and>
            (\<forall>i<50. \<exists>imgs. fetch W (rounds (tr i)) = Inr imgs \<and>
               snd (images_loop L (net W (rounds (tr i))) C imgs (tr i, 0)) = 0 \<and>
               tr (Suc i) = end_round (images_loop L (net W (rounds (tr i))) C imgs (tr i, 0))) \<longrightarrow>
            (\<forall>k. main_loop k L W C st =
                   (if k < 50 then None else Some (Exit0 (finish C (tr 50))))) \<and>
            rounds (tr 50) = rounds st + 50 \<and> emptyRounds (tr 50) = 50 \<and>
            totalNew (tr 50) = totalNew st) \<and>
         ((\<forall>n \<ge> rounds st. \<exists>imgs. fetch W n = Inr imgs \<and>
             (\<forall>im \<in> set imgs. URL im \<in> seen st \<or> fileNameFromURL L (URL im) = [] \<or>
                (\<forall>fs dst. fst (download L (net W n (URL im)) fs (URL im) dst) \<noteq> None))) \<longrightarrow>
            (\<forall>k \<ge> 50. \<exists>st'. main_loop k L W C st = Some (Exit0 st') \<and>
               rounds st' = rounds st + 50 \<and> emptyRounds st' = 50 \<and> totalNew st' = totalNew st) \<and>
            (\<forall>k < 50. main_loop k L W C st = None)) \<and>
         (\<forall>nt imgs s. snd (images_loop L nt C imgs (s, 0)) \<noteq> 0 \<longrightarrow>
            emptyRounds (end_round (images_loop L nt C imgs (s, 0))) = 0) \<and>
         (\<forall>nt imgs s. totalNew (fst (images_loop L nt C imgs (s, 0))) =
            totalNew s + snd (images_loop L nt C imgs (s, 0))) \<and>
         (\<forall>nt im rest s.
            URL im \<notin> seen s \<and> fileNameFromURL L (URL im) \<noteq> [] \<and>
            \<not> exists (disk s) (filepath_Join L (outDir C) (fileNameFromURL L (URL im))) \<and>
            fst (download L (nt (URL im)) (disk s) (URL im)
                   (filepath_Join L (outDir C) (fileNameFromURL L (URL im)))) = None \<longrightarrow>
            emptyRounds (end_round (images_loop L nt C (im # rest) (s, 0))) = 0)"
proof -
  have a: "\<forall>tr. tr 0 = st \<and>
            (\<forall>i<50. \<exists>imgs. fetch W (rounds (tr i)) = Inr imgs \<and>
               snd (images_loop L (net W (rounds (tr i))) C imgs (tr i, 0)) = 0 \<and>
               tr (Suc i) = end_round (images_loop L (net W (rounds (tr i))) C imgs (tr i, 0))) \<longrightarrow>
            (\<forall>k. main_loop k L W C st =
                   (if k < 50 then None else Some (Exit0 (finish C (tr 50))))) \<and>
            rounds (tr 50) = rounds st + 50 \<and> emptyRounds (tr 50) = 50 \<and>
            totalNew (tr 50) = totalNew st"
  proof (intro allI impI)
    fix tr :: "nat \<Rightarrow> state"
    assume h: "tr 0 = st \<and>
            (\<forall>i<50. \<exists>imgs. fetch W (rounds (tr i)) = Inr imgs \<and>
               snd (images_loop L (net W (rounds (tr i))) C imgs (tr i, 0)) = 0 \<and>
               tr (Suc i) = end_round (images_loop L (net W (rounds (tr i))) C imgs (tr i, 0)))"
    then have t: "\<forall>i<50. \<exists>imgs. fetch W (rounds (tr i)) = Inr imgs \<and>
               snd (images_loop L (net W (rounds (tr i))) C imgs (tr i, 0)) = 0 \<and>
               tr (Suc i) = end_round (images_loop L (net W (rounds (tr i))) C imgs (tr i, 0))"
      and e: "emptyRounds (tr 0) = 0" and s0: "tr 0 = st"
      using assms by auto
    have m: "\<forall>k. main_loop k L W C st =
                   (if k < 50 then None else Some (Exit0 (finish C (tr 50))))"
      using main_loop_trace[OF t e, of 0] s0 by simp
    have f: "rounds (tr 50) = rounds st + 50 \<and> emptyRounds (tr 50) = 50 \<and>
            totalNew (tr 50) = totalNew st"
      using trace_fields[OF t e, of 50] s0 by simp
    from m f show "(\<forall>k. main_loop k L W C st =
                   (if k < 50 then None else Some (Exit0 (finish C (tr 50))))) \<and>
            rounds (tr 50) = rounds st + 50 \<and> emptyRounds (tr 50) = 50 \<and>
            totalNew (tr 50) = totalNew st"
      by blast
  qed
  have b: "(\<forall>n \<ge> rounds st. \<exists>imgs. fetch W n = Inr imgs \<and>
             (\<forall>im \<in> set imgs. URL im \<in> seen st \<or> fileNameFromURL L (URL im) = [] \<or>
                (\<forall>fs dst. fst (download L (net W n (URL im)) fs (URL im) dst) \<noteq> None))) \<longrightarrow>
            (\<forall>k \<ge> 50. \<exists>st'. main_loop k L W C st = Some (Exit0 st') \<and>
               rounds st' = rounds st + 50 \<and> emptyRounds st' = 50 \<and> totalNew st' = totalNew st) \<and>
            (\<forall>k < 50. main_loop k L W C st = None)"
    using main_loop_barren[of st W L _ C] assms by blast
  have c: "\<forall>nt imgs s. snd (images_loop L nt C imgs (s, 0)) \<noteq> 0 \<longrightarrow>
            emptyRounds (end_round (images_loop L nt C imgs (s, 0))) = 0"
    using end_round_fields by simp
  have d: "\<forall>nt imgs s. totalNew (fst (images_loop L nt C imgs (s, 0))) =
            totalNew s + snd (images_loop L nt C imgs (s, 0))"
  proof (intro allI)
    fix nt imgs s
    show "totalNew (fst (images_loop L nt C imgs (s, 0))) =
            totalNew s + snd (images_loop L nt C imgs (s, 0))"
      using images_loop_frame[of L nt C imgs "(s, 0)"] by simp
  qed
  have e: "\<forall>nt im rest s.
            URL im \<notin> seen s \<and> fileNameFromURL L (URL im) \<noteq> [] \<and>
            \<not> exists (disk s) (filepath_Join L (outDir C) (fileNameFromURL L (URL im))) \<and>
            fst (download L (nt (URL im)) (disk s) (URL im)
                   (filepath_Join L (outDir C) (fileNameFromURL L (URL im)))) = None \<longrightarrow>
            emptyRounds (end_round (images_loop L nt C (im # rest) (s, 0))) = 0"
  proof (intro allI impI)
    fix nt and im :: spotImage and rest and s :: state
    assume h: "URL im \<notin> seen s \<and> fileNameFromURL L (URL im) \<noteq> [] \<and>
            \<not> exists (disk s) (filepath_Join L (outDir C) (fileNameFromURL L (URL im))) \<and>
            fst (download L (nt (URL im)) (disk s) (URL im)
                   (filepath_Join L (outDir C) (fileNameFromURL L (URL im)))) = None"
    then have "snd (visit L nt C im (s, 0)) = 1"
      using visit_saved[of im s L C nt 0] by simp
    then have "1 \<le> snd (images_loop L nt C rest (visit L nt C im (s, 0)))"
      using images_loop_mono[of "visit L nt C im (s, 0)" L nt C rest] by simp
    then show "emptyRounds (end_round (images_loop L nt C (im # rest) (s, 0))) = 0"
      using end_round_fields[of "images_loop L nt C (im # rest) (s, 0)"] by simp
  qed
  from a b c d e show ?thesis by blast
qed

lemma offline_download: "fst (download L (os_ok None) fs src dst) \<noteq> None"
  by (simp add: download_def os_ok_def split: option.splits)

theorem poll_loop_stops_after_empty_rounds_witness:
  "main_loop 50 model_lib quiet to_out (initial empty_dir) =
     Some (Exit0 (finish to_out ((initial empty_dir)\<lparr>emptyRounds := 50, rounds := 50\<rparr>))) \<and>
   main_loop 49 model_lib quiet to_out (initial empty_dir) = None \<and>
   (\<exists>st'. main_loop 50 model_lib offline to_out (initial empty_dir) = Some (Exit0 st') \<and>
          rounds st' = 50 \<and> emptyRounds st' = 50 \<and> totalNew st' = 0)"
proof -
  have e: "emptyRounds (initial empty_dir) = 0"
    by (simp add: initial_def)
  note T = poll_loop_stops_after_empty_rounds[OF e]
  let ?tr = "\<lambda>i. (initial empty_dir)\<lparr>emptyRounds := i, rounds := i\<rparr>"
  have t: "?tr 0 = initial empty_dir \<and>
            (\<forall>i<50. \<exists>imgs. fetch quiet (rounds (?tr i)) = Inr imgs \<and>
               snd (images_loop model_lib (net quiet (rounds (?tr i))) to_out imgs (?tr i, 0)) = 0 \<and>
               ?tr (Suc i) =
                 end_round (images_loop model_lib (net quiet (rounds (?tr i))) to_out imgs (?tr i, 0)))"
    by (simp add: initial_def quiet_def end_round_def)
  from T[of quiet model_lib to_out, THEN conjunct1, rule_format, OF t]
  have q: "\<forall>k. main_loop k model_lib quiet to_out (initial empty_dir) =
             (if k < 50 then None else Some (Exit0 (finish to_out (?tr 50))))"
    by blast
  have h: "\<forall>n \<ge> rounds (initial empty_dir). \<exists>imgs. fetch offline n = Inr imgs \<and>
             (\<forall>im \<in> set imgs. URL im \<in> seen (initial empty_dir) \<or>
                fileNameFromURL model_lib (URL im) = [] \<or>
                (\<forall>fs dst. fst (download model_lib (net offline n (URL im)) fs (URL im) dst) \<noteq> None))"
    by (simp add: offline_def offline_download)
  from T[of offline model_lib to_out, THEN conjunct2, THEN conjunct1, THEN mp, OF h]
  have o: "\<exists>st'. main_loop 50 model_lib offline to_out (initial empty_dir) = Some (Exit0 st') \<and>
          rounds st' = 50 \<and> emptyRounds st' = 50 \<and> totalNew st' = 0"
    by (simp add: initial_def)
  from q[rule_format, of 50] q[rule_format, of 49] o show ?thesis
    by simp
qed






end
